theory Spec2Isabelle
  imports Main "HOL-Library.Char_ord" "HOL-Library.List_Lexorder" "HOL-Library.AList"
begin

section \<open>Strings and JavaScript values\<close>

text \<open>
  A string is a list of code units, and the code units of this development are those
  below 256 (the range U+0000 to U+00FF); a character is classified by its code.
  An optional string field (\<open>string | null | undefined\<close>) is a \<open>string option\<close>;
  \<open>null\<close> and \<open>undefined\<close> are both \<open>None\<close>, since the code never tells them apart.
\<close>

definition isUpper :: "char \<Rightarrow> bool" where
  "isUpper c = (CHR ''A'' \<le> c \<and> c \<le> CHR ''Z'')"

definition isLower :: "char \<Rightarrow> bool" where
  "isLower c = (CHR ''a'' \<le> c \<and> c \<le> CHR ''z'')"

definition isDigit :: "char \<Rightarrow> bool" where
  "isDigit c = (CHR ''0'' \<le> c \<and> c \<le> CHR ''9'')"

text \<open>The character class \<open>[A-Za-z0-9]\<close>.\<close>

definition isAlnum :: "char \<Rightarrow> bool" where
  "isAlnum c = (isUpper c \<or> isLower c \<or> isDigit c)"

text \<open>
  The class \<open>\s\<close>, which is also what \<open>trim\<close> removes: below 256 these are tab, line
  feed, vertical tab, form feed, carriage return (codes 9 to 13), the space, and the
  no-break space U+00A0 (code 160).
\<close>

definition isSpace :: "char \<Rightarrow> bool" where
  "isSpace c = (c = CHR '' '' \<or> (9 \<le> (of_char c :: nat) \<and> (of_char c :: nat) \<le> 13) \<or>
                (of_char c :: nat) = 160)"

text \<open>
  \<open>toUpperCase\<close> and \<open>toLowerCase\<close>. Below 256 the letters with a capital are \<open>a\<close> to \<open>z\<close>
  and the codes 224 to 254 other than the division sign 247; the capital is 32 below.
  The sharp s (code 223) becomes the two letters \<open>SS\<close>. The micro sign (code 181) and
  the y with diaeresis (code 255) have their capitals at U+039C and U+0178, which are
  not code units of this development: \<open>upperChar\<close> leaves them in place, and
  \<open>capitalsBelow256\<close> tells the strings without them, the only ones on which a statement
  about the characters of an upper-cased text is made. The capitals with a small letter are
  \<open>A\<close> to \<open>Z\<close> and the codes 192 to 222 other than the multiplication sign 215.
\<close>

definition upperChar :: "char \<Rightarrow> char" where
  "upperChar c =
     (if isLower c \<or> (224 \<le> (of_char c :: nat) \<and> (of_char c :: nat) \<le> 254 \<and> (of_char c :: nat) \<noteq> 247)
      then char_of ((of_char c :: nat) - 32) else c)"

definition lowerChar :: "char \<Rightarrow> char" where
  "lowerChar c =
     (if isUpper c \<or> (192 \<le> (of_char c :: nat) \<and> (of_char c :: nat) \<le> 222 \<and> (of_char c :: nat) \<noteq> 215)
      then char_of ((of_char c :: nat) + 32) else c)"

definition toUpperCase :: "string \<Rightarrow> string" where
  "toUpperCase s = concat (map (\<lambda>c. if (of_char c :: nat) = 223 then ''SS'' else [upperChar c]) s)"

definition toLowerCase :: "string \<Rightarrow> string" where
  "toLowerCase s = map lowerChar s"


text \<open>\<open>String.prototype.trim\<close>: white space is removed at both ends.\<close>

definition trim :: "string \<Rightarrow> string" where
  "trim s = rev (dropWhile isSpace (rev (dropWhile isSpace s)))"

text \<open>
  Truthiness of an optional string: \<open>null\<close>, \<open>undefined\<close> and the empty string are
  falsy. \<open>a || b\<close> is \<open>js_or a b\<close>, and \<open>a ?? b\<close> is \<open>js_nullish a b\<close>.
\<close>

definition truthy :: "string option \<Rightarrow> bool" where
  "truthy s = (case s of None \<Rightarrow> False | Some t \<Rightarrow> t \<noteq> [])"

definition js_or :: "string option \<Rightarrow> string option \<Rightarrow> string option" where
  "js_or a b = (if truthy a then a else b)"

definition js_nullish :: "'a option \<Rightarrow> 'a option \<Rightarrow> 'a option" where
  "js_nullish a b = (case a of None \<Rightarrow> b | Some x \<Rightarrow> Some x)"

text \<open>\<open>a || ""\<close> and \<open>a ?? ""\<close> on an optional string give the same string.\<close>

definition orEmpty :: "string option \<Rightarrow> string" where
  "orEmpty a = (case a of None \<Rightarrow> [] | Some t \<Rightarrow> t)"

text \<open>
  Numbers as text: \<open>String(n)\<close> for an integer, and \<open>s.padStart(n, c)\<close>.
\<close>

definition digitChar :: "nat \<Rightarrow> char" where
  "digitChar n = ''0123456789'' ! (n mod 10)"

fun showNat :: "nat \<Rightarrow> string" where
  "showNat n = (if n < 10 then [digitChar n] else showNat (n div 10) @ [digitChar (n mod 10)])"

declare showNat.simps [simp del]

definition showInt :: "int \<Rightarrow> string" where
  "showInt i = (if i < 0 then CHR ''-'' # showNat (nat (- i)) else showNat (nat i))"

definition padStart :: "nat \<Rightarrow> char \<Rightarrow> string \<Rightarrow> string" where
  "padStart n c s = replicate (n - length s) c @ s"

section \<open>Cross-file precedence merge (route.ts, tracking buckets)\<close>

datatype SourceMode = PO | ShipDocs | UPS

datatype SourceModeFile = PO_file | ShipDocs_file | UPS_file

record UploadRow =
  row :: nat
  tracking :: "string option"
  poNumber :: "string option"
  shipDocNumber :: "string option"
  vendor :: "string option"
  customer :: "string option"
  date :: "string option"
  sourceMode :: SourceMode

text \<open>
  \<open>DetailRow\<close> of the merge. Its \<open>row\<close> and \<open>sourceMode\<close> fields are written
  \<open>d_row\<close> and \<open>d_sourceMode\<close> here, the plain names being taken by \<open>UploadRow\<close>.
  \<open>assertedDate\<close> has the declared type \<open>string | null\<close>.
\<close>

record DetailRow =
  d_row :: string
  d_sourceMode :: SourceModeFile
  chosenMode :: SourceMode
  orderNumber :: string
  partyUpload :: "string option"
  trackingUpload :: string
  assertedDate :: "string option"
  verdict :: string
  reason :: string
  dayDelta :: "int option"
  poVerdict :: "string option"
  shipVerdict :: "string option"

text \<open>
  \<open>normTracking\<close>: a falsy argument gives the empty string; otherwise everything
  outside \<open>[A-Za-z0-9]\<close> is removed and the rest is upper-cased.
\<close>

definition normTracking :: "string option \<Rightarrow> string" where
  "normTracking s = (if \<not> truthy s then [] else toUpperCase (filter isAlnum (orEmpty s)))"

text \<open>
  One slot of the \<open>byTracking\<close> map. An absent array (\<open>slot.po\<close> undefined) and an
  empty one are both \<open>[]\<close>: the code reads them through \<open>slot.po || []\<close>,
  \<open>bucket.po && bucket.po.length > 0\<close> and \<open>bucket.ups?.find\<close>, which agree on the two.
\<close>

record Bucket =
  po :: "UploadRow list"
  ship :: "UploadRow list"
  ups :: "UploadRow list"

definition emptyBucket :: Bucket where
  "emptyBucket = \<lparr>po = [], ship = [], ups = []\<rparr>"

text \<open>
  The \<open>Map\<close> keeps its keys in the order of their first insertion, and \<open>set\<close> on a
  key already present replaces the value in place: an association list under
  \<open>AList.update\<close>.
\<close>

definition add :: "UploadRow \<Rightarrow> (string \<times> Bucket) list \<Rightarrow> (string \<times> Bucket) list" where
  "add r byTracking =
     (let k = normTracking (js_or (tracking r) (Some [])) in
      if k = [] then byTracking
      else
        let slot = (case map_of byTracking k of None \<Rightarrow> emptyBucket | Some b \<Rightarrow> b);
            slot' = (if sourceMode r = PO then slot\<lparr>po := po slot @ [r]\<rparr>
                     else if sourceMode r = ShipDocs then slot\<lparr>ship := ship slot @ [r]\<rparr>
                     else slot\<lparr>ups := ups slot @ [r]\<rparr>)
        in AList.update k slot' byTracking)"

text \<open>
  The comparator \<open>(a.date || "").localeCompare(b.date || "")\<close> orders rows by the
  key \<open>a.date || ""\<close>. Row dates are the parser's \<open>y-m-d\<close> strings of digits and
  hyphens, on which the collation order is the lexicographic order of the characters.
  \<open>Array.prototype.sort\<close> is stable, as is \<open>sort_key\<close>.
\<close>

definition dateKey :: "UploadRow \<Rightarrow> string" where
  "dateKey r = orEmpty (js_or (date r) (Some []))"

definition sortByDate :: "UploadRow list \<Rightarrow> UploadRow list" where
  "sortByDate rows = sort_key dateKey rows"

text \<open>\<open>rows?.find(u => !!u.date)?.date\<close>\<close>

definition findDate :: "UploadRow list \<Rightarrow> string option" where
  "findDate rows = (case List.find (\<lambda>u. truthy (date u)) rows of None \<Rightarrow> None | Some u \<Rightarrow> date u)"

text \<open>The body of the loop over \<open>byTracking.entries()\<close>: at most one push per entry.\<close>

definition emit :: "string \<Rightarrow> Bucket \<Rightarrow> DetailRow option" where
  "emit k bucket =
     (if po bucket \<noteq> [] then
        (let pick = hd (sortByDate (po bucket));
             fallbackDate = js_or (js_or (findDate (ups bucket)) (findDate (ship bucket))) None
         in Some \<lparr>d_row = ''trk:'' @ k,
                  d_sourceMode = PO_file,
                  chosenMode = PO,
                  orderNumber = orEmpty (js_or (poNumber pick) (Some ''(missing PO#)'')),
                  partyUpload = js_or (js_or (vendor pick) (customer pick)) None,
                  trackingUpload = k,
                  assertedDate = js_or (date pick) fallbackDate,
                  verdict = ''MATCH_PO'',
                  reason = ''Tracking appears on PO; ShipDocs/UPS duplicates suppressed'',
                  dayDelta = None,
                  poVerdict = Some ''match'',
                  shipVerdict = None\<rparr>)
      else if ship bucket \<noteq> [] then
        (let pick = hd (sortByDate (ship bucket));
             fallbackDate = js_or (findDate (ups bucket)) None
         in Some \<lparr>d_row = ''trk:'' @ k,
                  d_sourceMode = ShipDocs_file,
                  chosenMode = ShipDocs,
                  orderNumber = orEmpty (js_or (shipDocNumber pick) (Some ''(missing ShipDoc#)'')),
                  partyUpload = js_or (js_or (customer pick) (vendor pick)) None,
                  trackingUpload = k,
                  assertedDate = js_or (date pick) fallbackDate,
                  verdict = ''MATCH_SHIPDOCS'',
                  reason = ''Tracking appears on ShipDocs; no PO found for this tracking'',
                  dayDelta = None,
                  poVerdict = None,
                  shipVerdict = Some ''match''\<rparr>)
      else if ups bucket \<noteq> [] then
        (let u = hd (sortByDate (ups bucket))
         in Some \<lparr>d_row = ''trk:'' @ k,
                  d_sourceMode = UPS_file,
                  chosenMode = UPS,
                  orderNumber = [],
                  partyUpload = js_or (js_or (customer u) (vendor u)) None,
                  trackingUpload = k,
                  assertedDate = js_or (date u) None,
                  verdict = ''UNMATCHED_UPS'',
                  reason = ''Tracking not found on PO or ShipDocs'',
                  dayDelta = None,
                  poVerdict = None,
                  shipVerdict = None\<rparr>)
      else None)"

text \<open>The three \<open>forEach(add)\<close> passes, in the order PO, ShipDocs, UPS.\<close>

definition buckets :: "UploadRow list \<Rightarrow> UploadRow list \<Rightarrow> UploadRow list \<Rightarrow> (string \<times> Bucket) list" where
  "buckets poRows shipRows upsRows = fold add upsRows (fold add shipRows (fold add poRows []))"

definition reconcileByTrackingPreferPO ::
    "UploadRow list \<Rightarrow> UploadRow list \<Rightarrow> UploadRow list \<Rightarrow> DetailRow list" where
  "reconcileByTrackingPreferPO poRows shipRows upsRows =
     List.map_filter (\<lambda>(k, bucket). emit k bucket) (buckets poRows shipRows upsRows)"

subsection \<open>Notions used to state the properties of the merge\<close>

text \<open>The map key of a row, as \<open>add\<close> computes it.\<close>

definition trackingKey :: "UploadRow \<Rightarrow> string" where
  "trackingKey r = normTracking (js_or (tracking r) (Some []))"

text \<open>The rows of one tracking number and one source, in upload order.\<close>

definition groupOf :: "UploadRow list \<Rightarrow> string \<Rightarrow> SourceMode \<Rightarrow> UploadRow list" where
  "groupOf rows k m = filter (\<lambda>r. trackingKey r = k \<and> sourceMode r = m) rows"

definition bucketOf :: "UploadRow list \<Rightarrow> string \<Rightarrow> Bucket" where
  "bucketOf rows k = \<lparr>po = groupOf rows k PO, ship = groupOf rows k ShipDocs, ups = groupOf rows k UPS\<rparr>"

definition pushRow :: "UploadRow \<Rightarrow> Bucket \<Rightarrow> Bucket" where
  "pushRow r slot = (if sourceMode r = PO then slot\<lparr>po := po slot @ [r]\<rparr>
                     else if sourceMode r = ShipDocs then slot\<lparr>ship := ship slot @ [r]\<rparr>
                     else slot\<lparr>ups := ups slot @ [r]\<rparr>)"

text \<open>The rows of the source that won the group of a result.\<close>

definition winners :: "UploadRow list \<Rightarrow> DetailRow \<Rightarrow> UploadRow list" where
  "winners rows d = groupOf rows (trackingUpload d) (chosenMode d)"

text \<open>The rows of a list that carry a date, in upload order.\<close>

definition dated :: "UploadRow list \<Rightarrow> UploadRow list" where
  "dated rows = filter (\<lambda>r. truthy (date r)) rows"

text \<open>Replacing the date of every row, everything else kept.\<close>

definition redate :: "(UploadRow \<Rightarrow> string option) \<Rightarrow> UploadRow \<Rightarrow> UploadRow" where
  "redate f r = r\<lparr>date := f r\<rparr>"

text \<open>The date a result shows, read off the rows of its group.\<close>

definition shownDate :: "UploadRow list \<Rightarrow> DetailRow \<Rightarrow> string option" where
  "shownDate rows d =
     (let pick = hd (sortByDate (winners rows d));
          upsDated = dated (groupOf rows (trackingUpload d) UPS);
          shipDated = dated (groupOf rows (trackingUpload d) ShipDocs)
      in if truthy (date pick) then date pick
         else if chosenMode d = PO then
           (if upsDated \<noteq> [] then date (hd upsDated)
            else if shipDated \<noteq> [] then date (hd shipDated) else None)
         else if chosenMode d = ShipDocs then
           (if upsDated \<noteq> [] then date (hd upsDated) else None)
         else None)"

text \<open>The verdict of a group, read off the sources present in it.\<close>

definition verdictOf :: "UploadRow list \<Rightarrow> string \<Rightarrow> string" where
  "verdictOf rows k =
     (if groupOf rows k PO \<noteq> [] then ''MATCH_PO''
      else if groupOf rows k ShipDocs \<noteq> [] then ''MATCH_SHIPDOCS'' else ''UNMATCHED_UPS'')"

text \<open>
  The earliest date among the dated rows of a list, in the order of the date strings:
  the reading "borrow the earliest available date" of the design text, against which
  \<open>findDate\<close> is compared.
\<close>

definition spec_earliestDate :: "UploadRow list \<Rightarrow> string option" where
  "spec_earliestDate rows = (case sort (map dateKey (dated rows)) of [] \<Rightarrow> None | x # _ \<Rightarrow> Some x)"

text \<open>Example rows: one tracking number written in several ways, and rows without one.\<close>

definition exPO :: UploadRow where
  "exPO = \<lparr>row = 1, tracking = Some ''1Z999AA10123456784'', poNumber = Some ''PO-100'',
           shipDocNumber = None, vendor = Some ''Acme'', customer = None,
           date = Some ''2024-01-05'', sourceMode = PO\<rparr>"

definition exPOundated :: UploadRow where
  "exPOundated = \<lparr>row = 2, tracking = Some ''1z999aa10123456784'', poNumber = Some [],
           shipDocNumber = None, vendor = None, customer = Some ''Bolt'',
           date = None, sourceMode = PO\<rparr>"

definition exPOearly :: UploadRow where
  "exPOearly = \<lparr>row = 3, tracking = Some ''1Z999AA1-0123456784'', poNumber = Some ''PO-101'',
           shipDocNumber = None, vendor = Some ''Zenith'', customer = None,
           date = Some ''2024-01-03'', sourceMode = PO\<rparr>"

definition exShip :: UploadRow where
  "exShip = \<lparr>row = 1, tracking = Some ''1z-999-aa1-0123456784'', poNumber = None,
           shipDocNumber = None, vendor = None, customer = Some ''Bolt'',
           date = Some ''2024-01-06'', sourceMode = ShipDocs\<rparr>"

definition exUPS :: UploadRow where
  "exUPS = \<lparr>row = 1, tracking = Some ''1Z 999 AA1 012345 6784'', poNumber = None,
           shipDocNumber = None, vendor = None, customer = None,
           date = Some ''2024-01-07'', sourceMode = UPS\<rparr>"

definition exUPSearly :: UploadRow where
  "exUPSearly = \<lparr>row = 2, tracking = Some ''1Z999AA10123456784'', poNumber = None,
           shipDocNumber = None, vendor = None, customer = None,
           date = Some ''2024-01-03'', sourceMode = UPS\<rparr>"

definition exUPSundated :: UploadRow where
  "exUPSundated = \<lparr>row = 3, tracking = Some ''9400-1000'', poNumber = None,
           shipDocNumber = None, vendor = None, customer = None,
           date = None, sourceMode = UPS\<rparr>"

definition exBlank :: UploadRow where
  "exBlank = \<lparr>row = 4, tracking = Some '' - '', poNumber = None,
           shipDocNumber = None, vendor = None, customer = None,
           date = Some ''2024-01-08'', sourceMode = UPS\<rparr>"

section \<open>Truth-source verification (route.ts of the per-row strategy, lib/ot.ts)\<close>

text \<open>
  The two interpretations of a row, \<open>"PO"\<close> and \<open>"SO"\<close>. The records of this strategy
  carry a prefix on their field names (\<open>r_\<close> for an uploaded row, \<open>t_\<close> for a detail
  of the response, and so on), the plain names being those of the merge above.
\<close>

datatype Mode = ModePO | ModeSO

definition modeName :: "Mode \<Rightarrow> string" where
  "modeName m = (case m of ModePO \<Rightarrow> ''PO'' | ModeSO \<Rightarrow> ''SO'')"

text \<open>
  A \<open>Date\<close> that is a valid time value, given by the fields of its UTC date and time as
  \<open>getUTCFullYear\<close>, \<open>getUTCMonth\<close> (0 for January), \<open>getUTCDate\<close>, \<open>getUTCHours\<close>,
  \<open>getUTCMinutes\<close>, \<open>getUTCSeconds\<close> and \<open>getUTCMilliseconds\<close> return them. The parser
  of this strategy returns valid dates or \<open>null\<close> only. \<open>validDate\<close> holds of the fields
  a time value can have.
\<close>

datatype JsDate =
  JsDate (utcFullYear: int) (utcMonth: nat) (utcDate: nat) (utcHours: nat) (utcMinutes: nat)
    (utcSeconds: nat) (utcMilliseconds: nat)

definition validDate :: "JsDate \<Rightarrow> bool" where
  "validDate d = (- 271821 \<le> utcFullYear d \<and> utcFullYear d \<le> 275760 \<and> utcMonth d < 12 \<and>
                  1 \<le> utcDate d \<and> utcDate d \<le> 31 \<and> utcHours d < 24 \<and> utcMinutes d < 60 \<and>
                  utcSeconds d < 60 \<and> utcMilliseconds d < 1000)"

text \<open>
  \<open>Date.prototype.toISOString\<close>: \<open>YYYY-MM-DDTHH:mm:ss.sssZ\<close>, the year with four digits
  from 0 to 9999, and with a sign and six digits otherwise.
\<close>

definition isoYear :: "int \<Rightarrow> string" where
  "isoYear y = (if 0 \<le> y \<and> y \<le> 9999 then padStart 4 (CHR ''0'') (showNat (nat y))
                else (if y < 0 then ''-'' else ''+'') @ padStart 6 (CHR ''0'') (showNat (nat \<bar>y\<bar>)))"

definition toISOString :: "JsDate \<Rightarrow> string" where
  "toISOString d =
     isoYear (utcFullYear d) @ ''-'' @ padStart 2 (CHR ''0'') (showNat (utcMonth d + 1)) @ ''-'' @
     padStart 2 (CHR ''0'') (showNat (utcDate d)) @ ''T'' @
     padStart 2 (CHR ''0'') (showNat (utcHours d)) @ '':'' @
     padStart 2 (CHR ''0'') (showNat (utcMinutes d)) @ '':'' @
     padStart 2 (CHR ''0'') (showNat (utcSeconds d)) @ ''.'' @
     padStart 3 (CHR ''0'') (showNat (utcMilliseconds d)) @ ''Z''"

record Row =
  r_orderNumber :: "string option"
  r_partyName :: "string option"
  r_trackingNumber :: "string option"
  r_assertedDate :: "JsDate option"
  r_sourceMode :: "Mode option"

text \<open>
  What the truth source answers. A promise is rejected (network, authentication, an HTTP
  error status) or resolved with the response body. A body that is \<open>null\<close> or otherwise
  falsy is \<open>None\<close>: the code tests it with \<open>!!order\<close>, \<open>activity ? ... : []\<close> and
  \<open>if (!activity)\<close> only. A body that is present is read through the fields below.
\<close>

datatype 'a Promise = Rejected | Resolved 'a

record Order =
  o_partyName :: "string option"
  o_vendorName :: "string option"
  o_customerName :: "string option"

record Pkg =
  p_trackingNumber :: "string option"
  p_tracking :: "string option"

record Doc =
  doc_date :: "string option"
  doc_shipDate :: "string option"
  doc_receiptDate :: "string option"
  doc_packages :: "Pkg list option"

record Activity =
  docs :: "Doc list option"

record Package =
  pk_tracking :: string
  pk_date :: "string option"

text \<open>
  The client of the truth source. \<open>getOrder\<close> and \<open>getActivity\<close> are those of lib/ot.ts;
  \<open>findByTracking\<close> and \<open>extractParty\<close> are imported from the same module by the route,
  and enter as they are called there.
\<close>

record OT =
  getOrder :: "Mode \<Rightarrow> string \<Rightarrow> Order option Promise"
  getActivity :: "Mode \<Rightarrow> string \<Rightarrow> Activity option Promise"
  findByTracking :: "Mode \<Rightarrow> string \<Rightarrow> string option \<Rightarrow> Activity option Promise"
  extractParty :: "Activity option \<Rightarrow> string option"

text \<open>The requests a reconciliation sends, in the order it sends them.\<close>

datatype OTCall =
    GetOrder Mode string
  | GetActivity Mode string
  | FindByTracking Mode string "string option"

text \<open>\<open>promise.catch(() => null)\<close>\<close>

definition catchNull :: "'a option Promise \<Rightarrow> 'a option" where
  "catchNull p = (case p of Rejected \<Rightarrow> None | Resolved v \<Rightarrow> v)"

text \<open>\<open>s.replace(/\s|-/g, "")\<close>: white space and hyphens are removed, nothing else.\<close>

definition stripSpaceHyphen :: "string \<Rightarrow> string" where
  "stripSpaceHyphen s = filter (\<lambda>c. \<not> (isSpace c \<or> c = CHR ''-'')) s"

text \<open>\<open>extractPackages\<close> of lib/ot.ts.\<close>

definition pkgTracking :: "Pkg \<Rightarrow> string" where
  "pkgTracking p =
     stripSpaceHyphen (toUpperCase (orEmpty (js_nullish (p_trackingNumber p) (js_nullish (p_tracking p) (Some [])))))"

definition docPackages :: "Doc \<Rightarrow> Package list" where
  "docPackages doc =
     (let date = js_nullish (doc_date doc) (js_nullish (doc_shipDate doc) (js_nullish (doc_receiptDate doc) None))
      in map (\<lambda>p. \<lparr>pk_tracking = pkgTracking p, pk_date = date\<rparr>)
           (filter (\<lambda>p. pkgTracking p \<noteq> [])
              (case doc_packages doc of None \<Rightarrow> [] | Some ps \<Rightarrow> ps)))"

definition extractPackages :: "Activity option \<Rightarrow> Package list" where
  "extractPackages activity =
     (case activity of
        None \<Rightarrow> []
      | Some a \<Rightarrow> concat (map docPackages (case docs a of None \<Rightarrow> [] | Some ds \<Rightarrow> ds)))"

text \<open>
  The argument and the result of \<open>decide\<close> (lib/decide), as the route builds the one and
  reads the other. The function itself enters as a parameter; it may throw, which is the
  left summand holding the message of the exception.
\<close>

record DecideInput =
  in_mode :: Mode
  in_partyUpload :: "string option"
  in_trackingUpload :: "string option"
  in_assertedDate :: "JsDate option"
  orderExists :: bool
  packages :: "Package list"
  partyOT :: "string option"

record DecideResult =
  v_verdict :: string
  v_reason :: "string option"
  v_dayDelta :: "int option"

record Res =
  res_mode :: Mode
  res_verdict :: string
  res_reason :: string
  res_dayDelta :: "int option"

text \<open>
  \<open>reconcileOne\<close> up to the call of \<open>decide\<close>: the lookups, and the argument built from
  them, together with the requests sent.
\<close>

definition gather :: "OT \<Rightarrow> Mode \<Rightarrow> Row \<Rightarrow> DecideInput \<times> OTCall list" where
  "gather ot mode r =
     (if truthy (r_orderNumber r) then
        (let n = orEmpty (r_orderNumber r);
             order = catchNull (getOrder ot mode n);
             exists = (order \<noteq> None);
             party = (case order of
                        None \<Rightarrow> None
                      | Some ord \<Rightarrow> js_nullish (o_partyName ord) (js_nullish (o_vendorName ord) (o_customerName ord)));
             activity = (if exists then catchNull (getActivity ot mode n) else None);
             pkgs = (if activity \<noteq> None then extractPackages activity else [])
         in (\<lparr>in_mode = mode, in_partyUpload = r_partyName r, in_trackingUpload = r_trackingNumber r,
               in_assertedDate = r_assertedDate r, orderExists = exists, packages = pkgs, partyOT = party\<rparr>,
             GetOrder mode n # (if exists then [GetActivity mode n] else [])))
      else if truthy (r_trackingNumber r) then
        (let tracking = stripSpaceHyphen (toUpperCase (orEmpty (r_trackingNumber r)));
             hint = map_option (\<lambda>d. take 10 (toISOString d)) (r_assertedDate r);
             activity = catchNull (findByTracking ot mode tracking hint);
             pkgs = (if activity \<noteq> None then extractPackages activity else []);
             party = extractParty ot activity
         in (\<lparr>in_mode = mode, in_partyUpload = r_partyName r, in_trackingUpload = r_trackingNumber r,
               in_assertedDate = r_assertedDate r, orderExists = (pkgs \<noteq> []), packages = pkgs, partyOT = party\<rparr>,
             [FindByTracking mode tracking hint]))
      else
        (\<lparr>in_mode = mode, in_partyUpload = r_partyName r, in_trackingUpload = r_trackingNumber r,
           in_assertedDate = r_assertedDate r, orderExists = False, packages = [], partyOT = None\<rparr>, []))"

definition reconcileOne ::
    "(DecideInput \<Rightarrow> string + DecideResult) \<Rightarrow> OT \<Rightarrow> Mode \<Rightarrow> Row \<Rightarrow> (string + Res) \<times> OTCall list" where
  "reconcileOne decide ot mode r =
     (case decide (fst (gather ot mode r)) of
        Inl err \<Rightarrow> (Inl err, snd (gather ot mode r))
      | Inr ver \<Rightarrow>
          (Inr \<lparr>res_mode = mode, res_verdict = v_verdict ver, res_reason = orEmpty (v_reason ver),
                res_dayDelta = v_dayDelta ver\<rparr>,
           snd (gather ot mode r)))"

subsection \<open>The verdict scorer\<close>

text \<open>
  The table \<open>SCORE\<close> and the reading \<open>SCORE[v] ?? 0\<close>. The table is a plain object, so a
  verdict that names a property every object inherits reads that property, which is not
  a number: \<open>score\<close> is \<open>None\<close> for it.
\<close>

definition SCORE :: "(string \<times> nat) list" where
  "SCORE = [(''OK'', 3), (''MISMATCH'', 2), (''NOT_FOUND'', 1), (''ERROR'', 0)]"

definition inherited :: "string list" where
  "inherited = [''constructor'', ''__proto__'', ''hasOwnProperty'', ''isPrototypeOf'',
     ''propertyIsEnumerable'', ''toLocaleString'', ''toString'', ''valueOf'',
     ''__defineGetter__'', ''__defineSetter__'', ''__lookupGetter__'', ''__lookupSetter__'']"

definition score :: "string \<Rightarrow> nat option" where
  "score v = (case map_of SCORE v of
                Some n \<Rightarrow> Some n
              | None \<Rightarrow> if v \<in> set inherited then None else Some 0)"

text \<open>
  The operands of \<open>>\<close> after their conversion to a primitive: a number, or the text
  of an inherited property. \<open>constructor\<close> is the function \<open>Object\<close>, \<open>__proto__\<close> is the
  prototype object, whose text is \<open>[object Object]\<close>, and the others are native functions
  of their own name, whose text is that of the Node runtime.
\<close>

datatype Reading = Number nat | Text string

definition reading :: "string \<Rightarrow> Reading" where
  "reading v =
     (case score v of
        Some n \<Rightarrow> Number n
      | None \<Rightarrow>
          if v = ''__proto__'' then Text ''[object Object]''
          else Text (''function '' @ (if v = ''constructor'' then ''Object'' else v) @ ''() { [native code] }''))"

text \<open>
  \<open>a > b\<close> on such operands: two numbers are compared as numbers and two texts by their
  code units; a number and a text compare as a number and \<open>NaN\<close>, which is false.
\<close>

definition js_gt :: "Reading \<Rightarrow> Reading \<Rightarrow> bool" where
  "js_gt a b = (case (a, b) of
                  (Number x, Number y) \<Rightarrow> y < x
                | (Text s, Text t) \<Rightarrow> t < s
                | _ \<Rightarrow> False)"

text \<open>
  One detail of the response. \<open>t_dayDelta\<close>, \<open>t_poVerdict\<close> and \<open>t_soVerdict\<close> are absent
  from the detail of a row whose reconciliation threw; \<open>t_dayDelta\<close> is \<open>Some None\<close>
  for a \<open>null\<close> day difference.
\<close>

record Detail =
  t_row :: nat
  t_sourceMode :: string
  t_chosenMode :: string
  t_orderNumber :: string
  t_partyUpload :: string
  t_trackingUpload :: string
  t_assertedDate :: string
  t_verdict :: string
  t_reason :: string
  t_dayDelta :: "int option option"
  t_poVerdict :: "string option"
  t_soVerdict :: "string option"

text \<open>\<open>r.assertedDate?.toISOString()?.slice(0, 10) ?? ""\<close>\<close>

definition wireDate :: "JsDate option \<Rightarrow> string" where
  "wireDate d = (case d of None \<Rightarrow> [] | Some t \<Rightarrow> take 10 (toISOString t))"

text \<open>The detail pushed in the \<open>catch\<close> branch of the loop over the rows.\<close>

definition errorDetail :: "nat \<Rightarrow> Row \<Rightarrow> string \<Rightarrow> Detail" where
  "errorDetail i r message =
     \<lparr>t_row = i + 1,
      t_sourceMode = (case r_sourceMode r of None \<Rightarrow> [] | Some m \<Rightarrow> modeName m),
      t_chosenMode = [],
      t_orderNumber = orEmpty (r_orderNumber r),
      t_partyUpload = orEmpty (r_partyName r),
      t_trackingUpload = orEmpty (r_trackingNumber r),
      t_assertedDate = wireDate (r_assertedDate r),
      t_verdict = ''ERROR'',
      t_reason = message,
      t_dayDelta = None,
      t_poVerdict = None,
      t_soVerdict = None\<rparr>"

text \<open>
  The body of the loop of \<open>POST\<close> for the row at index \<open>i\<close>: the preferred
  interpretation first, then the other one, then the choice between the two. An
  exception in either call ends the \<open>try\<close> block at once.
\<close>

definition reconcileRow ::
    "(DecideInput \<Rightarrow> string + DecideResult) \<Rightarrow> OT \<Rightarrow> nat \<Rightarrow> Row \<Rightarrow> Detail \<times> OTCall list" where
  "reconcileRow decide ot i r =
     (let prefer = (case r_sourceMode r of None \<Rightarrow> ModePO | Some m \<Rightarrow> m);
          other = (if prefer = ModePO then ModeSO else ModePO)
      in case reconcileOne decide ot prefer r of
           (Inl err, calls1) \<Rightarrow> (errorDetail i r err, calls1)
         | (Inr resPref, calls1) \<Rightarrow>
             (case reconcileOne decide ot other r of
                (Inl err, calls2) \<Rightarrow> (errorDetail i r err, calls1 @ calls2)
              | (Inr resOther, calls2) \<Rightarrow>
                  (let pick = (if js_gt (reading (res_verdict resOther)) (reading (res_verdict resPref))
                               then resOther else resPref)
                   in (\<lparr>t_row = i + 1,
                         t_sourceMode = (case r_sourceMode r of None \<Rightarrow> [] | Some m \<Rightarrow> modeName m),
                         t_chosenMode = modeName (res_mode pick),
                         t_orderNumber = orEmpty (r_orderNumber r),
                         t_partyUpload = orEmpty (r_partyName r),
                         t_trackingUpload = orEmpty (r_trackingNumber r),
                         t_assertedDate = wireDate (r_assertedDate r),
                         t_verdict = res_verdict pick,
                         t_reason = res_reason pick,
                         t_dayDelta = Some (res_dayDelta pick),
                         t_poVerdict = Some (if res_mode resPref = ModePO then res_verdict resPref
                                             else res_verdict resOther),
                         t_soVerdict = Some (if res_mode resPref = ModeSO then res_verdict resPref
                                             else res_verdict resOther)\<rparr>,
                       calls1 @ calls2))))"

text \<open>The loop over the rows: the details in row order, and all requests sent.\<close>

fun reconcileRows ::
    "(DecideInput \<Rightarrow> string + DecideResult) \<Rightarrow> OT \<Rightarrow> nat \<Rightarrow> Row list \<Rightarrow> Detail list \<times> OTCall list" where
  "reconcileRows decide ot i [] = ([], [])"
| "reconcileRows decide ot i (r # rows) =
     (let (d, calls) = reconcileRow decide ot i r;
          (ds, calls') = reconcileRows decide ot (i + 1) rows
      in (d # ds, calls @ calls'))"

subsection \<open>The decision function\<close>

text \<open>
  Modelled from the spec: lib/decide (the module of \<open>decide\<close>) is not among the sources.
  The design text gives its contract: \<open>NOT_FOUND\<close> when there is no matching order or
  tracking in the truth source, \<open>OK\<close> when existence is confirmed and the compared
  attributes agree within tolerance, \<open>MISMATCH\<close> when existence is confirmed and date or
  party disagree; \<open>dayDelta\<close> is the day difference when both dates are known. The
  tolerance, the comparison of the parties, the day difference and the wording of the
  reason are its own, and enter as parameters. The contract has a fourth verdict,
  \<open>ERROR\<close>, for a lookup that failed; the argument the route passes carries nothing
  that tells a failed lookup, so this function cannot return it.
\<close>

definition decide_spec ::
    "(DecideInput \<Rightarrow> bool) \<Rightarrow> (DecideInput \<Rightarrow> int option) \<Rightarrow> (DecideInput \<Rightarrow> string) \<Rightarrow>
     DecideInput \<Rightarrow> string + DecideResult" where
  "decide_spec agree delta why inp =
     Inr (if \<not> orderExists inp then
            \<lparr>v_verdict = ''NOT_FOUND'', v_reason = Some (why inp), v_dayDelta = None\<rparr>
          else if agree inp then
            \<lparr>v_verdict = ''OK'', v_reason = Some (why inp), v_dayDelta = delta inp\<rparr>
          else
            \<lparr>v_verdict = ''MISMATCH'', v_reason = Some (why inp), v_dayDelta = delta inp\<rparr>)"

subsection \<open>Example truth sources and rows\<close>

definition otDown :: OT where
  "otDown = \<lparr>getOrder = (\<lambda>m n. Rejected), getActivity = (\<lambda>m n. Rejected),
             findByTracking = (\<lambda>m t h. Rejected), extractParty = (\<lambda>a. None)\<rparr>"

definition otEmpty :: OT where
  "otEmpty = \<lparr>getOrder = (\<lambda>m n. Resolved None), getActivity = (\<lambda>m n. Resolved None),
              findByTracking = (\<lambda>m t h. Resolved None), extractParty = (\<lambda>a. None)\<rparr>"

definition exActivity :: Activity where
  "exActivity = \<lparr>docs = Some [\<lparr>doc_date = None, doc_shipDate = Some ''2024-02-03'', doc_receiptDate = None,
       doc_packages = Some [\<lparr>p_trackingNumber = Some '' - '', p_tracking = None\<rparr>,
                            \<lparr>p_trackingNumber = None, p_tracking = Some ''1z 999-aa1''\<rparr>]\<rparr>]\<rparr>"

text \<open>A truth source that knows sales orders only, and finds any tracking number.\<close>

definition otSales :: OT where
  "otSales = \<lparr>getOrder = (\<lambda>m n. if m = ModeSO
                                   then Resolved (Some \<lparr>o_partyName = None, o_vendorName = None,
                                                         o_customerName = Some ''Bolt''\<rparr>)
                                   else Resolved None),
              getActivity = (\<lambda>m n. Resolved (Some exActivity)),
              findByTracking = (\<lambda>m t h. Resolved (Some exActivity)),
              extractParty = (\<lambda>a. None)\<rparr>"

definition exRowOrder :: Row where
  "exRowOrder = \<lparr>r_orderNumber = Some ''PO-200'', r_partyName = Some ''Bolt'', r_trackingNumber = None,
                 r_assertedDate = Some (JsDate 2024 1 1 0 0 0 0), r_sourceMode = Some ModePO\<rparr>"

definition exRowTracking :: Row where
  "exRowTracking = \<lparr>r_orderNumber = None, r_partyName = None, r_trackingNumber = Some ''1Z 999.AA1/01'',
                    r_assertedDate = None, r_sourceMode = None\<rparr>"


text \<open>A row dated in the year 12345.\<close>

definition exRowFarDate :: Row where
  "exRowFarDate = \<lparr>r_orderNumber = Some ''PO-200'', r_partyName = None, r_trackingNumber = None,
                   r_assertedDate = Some (JsDate 12345 0 1 0 0 0 0), r_sourceMode = Some ModePO\<rparr>"

definition exDecide :: "DecideInput \<Rightarrow> string + DecideResult" where
  "exDecide = decide_spec (\<lambda>inp. True) (\<lambda>inp. None) (\<lambda>inp. [])"



text \<open>Two truth sources that know every order: the activity lookup fails, or answers \<open>null\<close>.\<close>

definition exOrder :: Order where
  "exOrder = \<lparr>o_partyName = None, o_vendorName = Some ''Acme'', o_customerName = None\<rparr>"

definition otActivityDown :: OT where
  "otActivityDown = \<lparr>getOrder = (\<lambda>m n. Resolved (Some exOrder)), getActivity = (\<lambda>m n. Rejected),
              findByTracking = (\<lambda>m t h. Rejected), extractParty = (\<lambda>a. None)\<rparr>"

definition otActivityNull :: OT where
  "otActivityNull = \<lparr>getOrder = (\<lambda>m n. Resolved (Some exOrder)), getActivity = (\<lambda>m n. Resolved None),
              findByTracking = (\<lambda>m t h. Resolved None), extractParty = (\<lambda>a. None)\<rparr>"



section \<open>The parsers\<close>

text \<open>
  One decoded row of a file is an object from header to cell, here an association list in
  the order of the object's keys, every key once. For the two variants of lib/parse a
  cell is a text, which is what their CSV readers deliver (\<open>Papa.parse\<close> without dynamic
  typing). Reading dates rests on the platform's \<open>Date\<close>; it enters as a parameter
  wherever a parser calls it.
\<close>

type_synonym RawRow = "(string \<times> string) list"





subsection \<open>lib/parse: \<open>parseFile\<close>\<close>

record ParsedRow =
  u_orderNumber :: "string option"
  u_partyName :: "string option"
  u_trackingNumber :: "string option"
  u_assertedDate :: "JsDate option"
  u_raw :: RawRow



















text \<open>\<open>rows.push({ ...r, sourceMode: tag })\<close> of the route, on a row of the parser.\<close>

definition tagRow :: "Mode \<Rightarrow> ParsedRow \<Rightarrow> Row" where
  "tagRow tag u = \<lparr>r_orderNumber = u_orderNumber u, r_partyName = u_partyName u,
                   r_trackingNumber = u_trackingNumber u, r_assertedDate = u_assertedDate u,
                   r_sourceMode = Some tag\<rparr>"

subsection \<open>lib/parse, the variant with a mode: \<open>parseFile(file, mode)\<close>\<close>











subsection \<open>route.ts of the merge: \<open>parseUploadToRows\<close>\<close>

definition trackingAliases :: "string list" where
  "trackingAliases = [''tracking'', ''tracking#'', ''tracking number'', ''trackingnumber'', ''ups tracking'',
     ''ups'', ''trk'', ''awb'', ''carrier tracking'', ''carrier tracking number'',
     ''package tracking number'', ''shipment tracking'', ''shipment tracking number'', ''tracking no.'',
     ''tracking id'']"

definition poAliases :: "string list" where
  "poAliases = [''po'', ''po#'', ''po number'', ''ponumber'', ''purchase order'', ''purchase order number'',
     ''purchase order #'', ''purchaseorder'', ''purchase order id'', ''po id'']"

definition shipDocAliases :: "string list" where
  "shipDocAliases = [''shipdoc'', ''ship doc'', ''ship doc#'', ''shipment doc'', ''shipdoc number'',
     ''ship doc number'', ''shipdoc#'', ''ship document'', ''shipment document'',
     ''so'', ''so#'', ''sales order'', ''sales order number'', ''sales order #'', ''salesorder'',
     ''document number'', ''doc number'', ''doc#'', ''document#'', ''shipdoc id'', ''ship doc id'']"

definition vendorAliases :: "string list" where
  "vendorAliases = [''vendor'', ''supplier'', ''from'', ''vendor name'']"

definition customerAliases :: "string list" where
  "customerAliases = [''customer'', ''bill to'', ''sold to'', ''ship to'', ''client'', ''customer name'']"

definition dateAliases :: "string list" where
  "dateAliases = [''date'', ''transaction date'', ''post date'', ''posted date'', ''shipment date'',
     ''ship date'', ''invoice date'']"

text \<open>
  A cell of a sheet decoded by \<open>sheetToJson\<close> is a string, a number, a \<open>Date\<close> or
  something else (a boolean). It is given by what the code reads of it: its text
  \<open>String(v)\<close>; for a number, what \<open>XLSX.SSF.parse_date_code(v)\<close> returns, as the
  fields \<open>y\<close>, \<open>m\<close>, \<open>d\<close>, or \<open>None\<close> for \<open>null\<close>; for a \<open>Date\<close>, the fields
  \<open>getFullYear()\<close>, \<open>getMonth()\<close>, \<open>getDate()\<close> of its local date, or \<open>None\<close> when it
  is not a valid time value.
\<close>

datatype Cell =
    CellText string
  | CellNumber string "(int \<times> nat \<times> nat) option"
  | CellDate string "(int \<times> nat \<times> nat) option"
  | CellOther string

type_synonym SheetRow = "(string \<times> Cell) list"

definition cellText :: "Cell \<Rightarrow> string" where
  "cellText v = (case v of CellText s \<Rightarrow> s | CellNumber s c \<Rightarrow> s | CellDate s l \<Rightarrow> s | CellOther s \<Rightarrow> s)"

text \<open>
  The keys of an object come in the order of the language: the keys that are array
  indices (a decimal numeral without leading zero, below \<open>2^32 - 1\<close>) first, in
  ascending order, then the others in the order of their creation. \<open>setProp k v obj\<close> is
  the assignment \<open>obj[k] = v\<close>.
\<close>

definition numeralValue :: "string \<Rightarrow> nat" where
  "numeralValue k = foldl (\<lambda>n c. 10 * n + ((of_char c :: nat) - 48)) 0 k"

definition isIndexKey :: "string \<Rightarrow> bool" where
  "isIndexKey k = (k \<noteq> [] \<and> list_all isDigit k \<and> (k = ''0'' \<or> hd k \<noteq> CHR ''0'') \<and>
                   numeralValue k < 4294967295)"

definition setProp :: "string \<Rightarrow> 'a \<Rightarrow> (string \<times> 'a) list \<Rightarrow> (string \<times> 'a) list" where
  "setProp k v obj =
     (if map_of obj k \<noteq> None then AList.update k v obj
      else if isIndexKey k then
        takeWhile (\<lambda>(k', v'). isIndexKey k' \<and> numeralValue k' < numeralValue k) obj @ (k, v) #
        dropWhile (\<lambda>(k', v'). isIndexKey k' \<and> numeralValue k' < numeralValue k) obj
      else obj @ [(k, v)])"

text \<open>\<open>lcKeyed\<close>: a key written twice keeps its first place and its last value.\<close>

definition lcKeyed :: "(string \<times> 'a) list \<Rightarrow> (string \<times> 'a) list" where
  "lcKeyed obj = fold (\<lambda>(k, v) out. setProp (toLowerCase (trim k)) v out) obj []"

text \<open>\<open>pickFirst\<close>: the cell under the first key that has one other than \<open>""\<close>.\<close>

fun pickFirst :: "SheetRow \<Rightarrow> string list \<Rightarrow> Cell option" where
  "pickFirst obj [] = None"
| "pickFirst obj (k # keys) =
     (case map_of obj k of
        None \<Rightarrow> pickFirst obj keys
      | Some v \<Rightarrow> if v \<noteq> CellText [] then Some v else pickFirst obj keys)"

text \<open>
  The first match of \<open>/1Z[0-9A-Z]{16,}/i\<close>: the first place where \<open>1\<close>, then \<open>Z\<close> or
  \<open>z\<close>, then at least sixteen letters and digits stand; the match runs on to the end of
  these.
\<close>

definition upsTail :: "string \<Rightarrow> bool" where
  "upsTail cs = (case cs of [] \<Rightarrow> False
                 | z # rest \<Rightarrow> (z = CHR ''Z'' \<or> z = CHR ''z'') \<and> 16 \<le> length (takeWhile isAlnum rest))"

fun matchUps :: "string \<Rightarrow> string option" where
  "matchUps [] = None"
| "matchUps (c # cs) =
     (if c = CHR ''1'' \<and> upsTail cs then Some (c # take 1 cs @ takeWhile isAlnum (drop 1 cs))
      else matchUps cs)"

definition findUpsInString :: "string \<Rightarrow> string option" where
  "findUpsInString s =
     (if s = [] then None
      else case matchUps s of
        Some direct \<Rightarrow> Some (normTracking (Some direct))
      | None \<Rightarrow>
          (let squeezed = filter isAlnum s
           in if take 1 squeezed = ''1'' \<and> upsTail (drop 1 squeezed) then Some (toUpperCase squeezed)
              else map_option toUpperCase (matchUps squeezed)))"

text \<open>The loop over \<open>Object.values(rawLower)\<close>, on the text \<open>String(v)\<close> of every cell.\<close>

fun fallbackTrackingFromAnyCell :: "SheetRow \<Rightarrow> string option" where
  "fallbackTrackingFromAnyCell [] = None"
| "fallbackTrackingFromAnyCell ((k, v) # rest) =
     (case findUpsInString (cellText v) of
        Some hit \<Rightarrow> if hit \<noteq> [] then Some hit else fallbackTrackingFromAnyCell rest
      | None \<Rightarrow> fallbackTrackingFromAnyCell rest)"

text \<open>
  The date of a row is written \<open>`${y}-${m}-${d}`\<close>: the year as the number it is, the
  month and the day padded to two digits.
\<close>

definition ymdText :: "int \<Rightarrow> nat \<Rightarrow> nat \<Rightarrow> string" where
  "ymdText y m d =
     showInt y @ ''-'' @ padStart 2 (CHR ''0'') (showNat m) @ ''-'' @ padStart 2 (CHR ''0'') (showNat d)"

text \<open>
  \<open>toISODateOrNull\<close>. \<open>newDate s\<close> stands for \<open>new Date(s)\<close> on a string: the fields
  \<open>getFullYear()\<close>, \<open>getMonth()\<close>, \<open>getDate()\<close> of the date read, or \<open>None\<close> when the
  string does not read as a date.
\<close>

definition toISODateOrNull :: "(string \<Rightarrow> (int \<times> nat \<times> nat) option) \<Rightarrow> Cell \<Rightarrow> string option" where
  "toISODateOrNull newDate v =
     (case v of
        CellText s \<Rightarrow>
          (if s = [] then None
           else case newDate s of None \<Rightarrow> None | Some (y, m, d) \<Rightarrow> Some (ymdText y (m + 1) d))
      | CellDate s l \<Rightarrow> (case l of None \<Rightarrow> None | Some (y, m, d) \<Rightarrow> Some (ymdText y (m + 1) d))
      | CellNumber s c \<Rightarrow> (case c of None \<Rightarrow> None | Some (y, m, d) \<Rightarrow> Some (ymdText y m d))
      | CellOther s \<Rightarrow> None)"

text \<open>
  \<open>isDateLike\<close>: a valid \<open>Date\<close>, or a string in which
  \<open>/\d{1,4}[\/\-\.]\d{1,2}[\/\-\.]\d{1,4}/\<close> matches somewhere or
  \<open>/^\d{4}-\d{2}-\d{2}/\<close> matches at the start. \<open>digitsThen n s\<close> is what follows \<open>n\<close>
  digits at the start of \<open>s\<close>.
\<close>

definition digitsThen :: "nat \<Rightarrow> string \<Rightarrow> string option" where
  "digitsThen n s = (if n \<le> length s \<and> list_all isDigit (take n s) then Some (drop n s) else None)"

definition sepThen :: "string \<Rightarrow> string option" where
  "sepThen s = (case s of [] \<Rightarrow> None
                | c # cs \<Rightarrow> if c = CHR ''/'' \<or> c = CHR ''-'' \<or> c = CHR ''.'' then Some cs else None)"

definition looseDateHere :: "string \<Rightarrow> bool" where
  "looseDateHere s =
     list_ex (\<lambda>a. list_ex (\<lambda>b.
        (case Option.bind (digitsThen a s) sepThen of
           None \<Rightarrow> False
         | Some s1 \<Rightarrow>
             (case Option.bind (digitsThen b s1) sepThen of
                None \<Rightarrow> False
              | Some s2 \<Rightarrow> digitsThen 1 s2 \<noteq> None))) [1, 2]) [1, 2, 3, 4]"

fun looseDateAnywhere :: "string \<Rightarrow> bool" where
  "looseDateAnywhere [] = False"
| "looseDateAnywhere (c # cs) = (looseDateHere (c # cs) \<or> looseDateAnywhere cs)"

definition isoDateAtStart :: "string \<Rightarrow> bool" where
  "isoDateAtStart s =
     (case digitsThen 4 s of
        None \<Rightarrow> False
      | Some s1 \<Rightarrow>
          (case s1 of
             [] \<Rightarrow> False
           | c # s2 \<Rightarrow>
               c = CHR ''-'' \<and>
               (case digitsThen 2 s2 of
                  None \<Rightarrow> False
                | Some s3 \<Rightarrow> (case s3 of [] \<Rightarrow> False | c' # s4 \<Rightarrow> c' = CHR ''-'' \<and> digitsThen 2 s4 \<noteq> None))))"

definition isDateLike :: "Cell \<Rightarrow> bool" where
  "isDateLike v =
     (case v of
        CellDate s l \<Rightarrow> l \<noteq> None
      | CellText s \<Rightarrow> looseDateAnywhere s \<or> isoDateAtStart s
      | CellNumber s c \<Rightarrow> False
      | CellOther s \<Rightarrow> False)"

text \<open>
  The date of the row: \<open>toISODateOrNull\<close>, then, when that gave nothing and the cell is
  date-like, \<open>new Date(dateRaw)\<close> once more.
\<close>

definition rowDate :: "(string \<Rightarrow> (int \<times> nat \<times> nat) option) \<Rightarrow> Cell option \<Rightarrow> string option" where
  "rowDate newDate dateRaw =
     (case dateRaw of
        None \<Rightarrow> None
      | Some v \<Rightarrow>
          if v = CellText [] then None
          else
            (let date0 = toISODateOrNull newDate v
             in if \<not> truthy date0 \<and> isDateLike v then
                  (case (case v of CellText s \<Rightarrow> newDate s | CellDate s l \<Rightarrow> l
                                 | CellNumber s c \<Rightarrow> None | CellOther s \<Rightarrow> None) of
                     None \<Rightarrow> date0
                   | Some (y, m, d) \<Rightarrow> Some (ymdText y (m + 1) d))
                else date0))"

text \<open>The body of the loop for the row at index \<open>i\<close>; every row is pushed.\<close>

definition parseUploadRow ::
    "(string \<Rightarrow> (int \<times> nat \<times> nat) option) \<Rightarrow> SourceMode \<Rightarrow> nat \<Rightarrow> SheetRow \<Rightarrow> UploadRow" where
  "parseUploadRow newDate mode i rawRow =
     (let rawLower = lcKeyed rawRow;
          tracking0 = map_option (\<lambda>v. trim (cellText v)) (pickFirst rawLower trackingAliases);
          tracking1 = (if \<not> truthy tracking0 then fallbackTrackingFromAnyCell rawLower else tracking0);
          tracking2 = (if truthy tracking1 then Some (normTracking tracking1) else tracking1);
          dateRaw = pickFirst rawLower dateAliases
      in \<lparr>row = i + 1,
          tracking = tracking2,
          poNumber = map_option (\<lambda>v. trim (cellText v)) (pickFirst rawLower poAliases),
          shipDocNumber = map_option (\<lambda>v. trim (cellText v)) (pickFirst rawLower shipDocAliases),
          vendor = map_option (\<lambda>v. trim (cellText v)) (pickFirst rawLower vendorAliases),
          customer = map_option (\<lambda>v. trim (cellText v)) (pickFirst rawLower customerAliases),
          date = rowDate newDate dateRaw,
          sourceMode = mode\<rparr>)"

fun parseUploadFrom ::
    "(string \<Rightarrow> (int \<times> nat \<times> nat) option) \<Rightarrow> SourceMode \<Rightarrow> nat \<Rightarrow> SheetRow list \<Rightarrow> UploadRow list" where
  "parseUploadFrom newDate mode i [] = []"
| "parseUploadFrom newDate mode i (r # rows) =
     parseUploadRow newDate mode i r # parseUploadFrom newDate mode (i + 1) rows"

definition parseUploadToRows ::
    "(string \<Rightarrow> (int \<times> nat \<times> nat) option) \<Rightarrow> SourceMode \<Rightarrow> SheetRow list \<Rightarrow> UploadRow list" where
  "parseUploadToRows newDate mode rows = parseUploadFrom newDate mode 0 rows"

subsection \<open>Example rows of a file\<close>









text \<open>
  Rows of a sheet for the merge: a row without any identifier, a row whose date is an
  Excel serial number, and a row whose date is the text of a day of the year 99.
  \<open>exNewDate\<close> reads that text as the platform does, and nothing else.
\<close>

definition sheetBlank :: SheetRow where
  "sheetBlank = [(''Tracking'', CellText '' ''), (''PO'', CellText []), (''Notes'', CellText ''call back'')]"

definition sheetSerial :: SheetRow where
  "sheetSerial = [(''Tracking'', CellText ''1Z 999 AA1 012345 6784''), (''PO Number'', CellText ''PO-100''),
                  (''Date'', CellNumber ''45296'' (Some (2024, 1, 5)))]"

definition sheetYear99 :: SheetRow where
  "sheetYear99 = [(''Tracking'', CellText ''1Z999AA10123456784''),
                  (''Ship Date'', CellText ''0099-06-15T12:00:00.000Z'')]"

definition exNewDate :: "string \<Rightarrow> (int \<times> nat \<times> nat) option" where
  "exNewDate s = (if s = ''0099-06-15T12:00:00.000Z'' then Some (99, 5, 15) else None)"

subsection \<open>Notions used to state the properties of the parsers\<close>










text \<open>The shape \<open>YYYY-MM-DD\<close>: four digits, a hyphen, two digits, a hyphen, two digits.\<close>

definition isYMD :: "string \<Rightarrow> bool" where
  "isYMD s = (length s = 10 \<and> list_all isDigit (take 4 s) \<and> s ! 4 = CHR ''-'' \<and>
              list_all isDigit (take 2 (drop 5 s)) \<and> s ! 7 = CHR ''-'' \<and> list_all isDigit (drop 8 s))"

section \<open>Properties of the precedence merge\<close>

lemma add_snoc: "fold add (rows @ [r]) m = add r (fold add rows m)" by simp

lemma add_eq:
  "add r m = (if trackingKey r = [] then m
              else AList.update (trackingKey r)
                     (pushRow r (case map_of m (trackingKey r) of None \<Rightarrow> emptyBucket | Some b \<Rightarrow> b)) m)"
  by (simp add: add_def trackingKey_def pushRow_def Let_def)

lemma bucketOf_absent: "\<not> (\<exists>r\<in>set rows. trackingKey r = k) \<Longrightarrow> bucketOf rows k = emptyBucket"
  by (auto simp: bucketOf_def groupOf_def emptyBucket_def filter_empty_conv)

lemma bucketOf_snoc:
  "bucketOf (rows @ [r]) k = (if trackingKey r = k then pushRow r (bucketOf rows k) else bucketOf rows k)"
  by (cases "sourceMode r") (auto simp: bucketOf_def groupOf_def pushRow_def)

lemma map_of_buckets:
  "map_of (fold add rows []) k =
     (if k \<noteq> [] \<and> (\<exists>r\<in>set rows. trackingKey r = k) then Some (bucketOf rows k) else None)"
proof (induction rows arbitrary: k rule: rev_induct)
  case Nil
  then show ?case by simp
next
  case (snoc r rows)
  define M where "M = fold add rows []"
  have IH: "map_of M k' = (if k' \<noteq> [] \<and> (\<exists>r\<in>set rows. trackingKey r = k') then Some (bucketOf rows k') else None)" for k'
    unfolding M_def by (rule snoc.IH)
  have slot: "(case map_of M k' of None \<Rightarrow> emptyBucket | Some b \<Rightarrow> b) = bucketOf rows k'" if "k' \<noteq> []" for k'
    using IH[of k'] that by (auto simp: bucketOf_absent)
  have step: "fold add (rows @ [r]) [] = (if trackingKey r = [] then M
              else AList.update (trackingKey r)
                     (pushRow r (case map_of M (trackingKey r) of None \<Rightarrow> emptyBucket | Some b \<Rightarrow> b)) M)"
    unfolding M_def by (simp add: add_eq)
  show ?case
    unfolding step using IH[of k] slot[of "trackingKey r"]
    by (auto simp: update_conv' bucketOf_snoc)
qed

lemma keys_buckets:
  "distinct (map fst (fold add rows [])) \<and>
   set (map fst (fold add rows [])) = {k. k \<noteq> [] \<and> (\<exists>r\<in>set rows. trackingKey r = k)}"
proof (induction rows rule: rev_induct)
  case Nil
  then show ?case by simp
next
  case (snoc r rows)
  define M where "M = fold add rows []"
  have IH: "distinct (map fst M)" "set (map fst M) = {k. k \<noteq> [] \<and> (\<exists>r\<in>set rows. trackingKey r = k)}"
    using snoc.IH unfolding M_def by auto
  have step: "fold add (rows @ [r]) [] = (if trackingKey r = [] then M
              else AList.update (trackingKey r)
                     (pushRow r (case map_of M (trackingKey r) of None \<Rightarrow> emptyBucket | Some b \<Rightarrow> b)) M)"
    unfolding M_def by (simp add: add_eq)
  show ?case unfolding step using IH
    by (auto simp: dom_update distinct_update)
qed


lemma buckets_eq: "buckets p s u = fold add (p @ s @ u) []"
  by (simp add: buckets_def)

lemma buckets_entry:
  "(k, b) \<in> set (buckets p s u) \<longleftrightarrow>
     k \<noteq> [] \<and> (\<exists>r\<in>set (p @ s @ u). trackingKey r = k) \<and> b = bucketOf (p @ s @ u) k"
proof -
  have d: "distinct (map fst (buckets p s u))"
    unfolding buckets_eq using keys_buckets[of "p @ s @ u"] by blast
  have "(k, b) \<in> set (buckets p s u) \<longleftrightarrow> map_of (buckets p s u) k = Some b"
    using d by simp
  also have "\<dots> \<longleftrightarrow> k \<noteq> [] \<and> (\<exists>r\<in>set (p @ s @ u). trackingKey r = k) \<and> b = bucketOf (p @ s @ u) k"
    unfolding buckets_eq map_of_buckets by auto
  finally show ?thesis .
qed

lemma emit_tracking: "emit k b = Some d \<Longrightarrow> trackingUpload d = k"
  by (auto simp: emit_def Let_def split: if_splits)

lemma emit_Some:
  "po b \<noteq> [] \<or> ship b \<noteq> [] \<or> ups b \<noteq> [] \<Longrightarrow> \<exists>d. emit k b = Some d"
  by (auto simp: emit_def Let_def)

lemma bucketOf_nonempty:
  assumes "r \<in> set rows" "trackingKey r = k"
  shows "po (bucketOf rows k) \<noteq> [] \<or> ship (bucketOf rows k) \<noteq> [] \<or> ups (bucketOf rows k) \<noteq> []"
  using assms by (cases "sourceMode r") (auto simp: bucketOf_def groupOf_def filter_empty_conv)

lemma set_map_filter_iff: "y \<in> set (List.map_filter f xs) \<longleftrightarrow> (\<exists>x\<in>set xs. f x = Some y)"
  by (induction xs) (auto split: option.splits)

lemma reconcile_mem:
  "d \<in> set (reconcileByTrackingPreferPO p s u) \<longleftrightarrow>
     (\<exists>k. k \<noteq> [] \<and> (\<exists>r\<in>set (p @ s @ u). trackingKey r = k) \<and> emit k (bucketOf (p @ s @ u) k) = Some d)"
proof
  assume "d \<in> set (reconcileByTrackingPreferPO p s u)"
  then obtain k b where kb: "(k, b) \<in> set (buckets p s u)" "emit k b = Some d"
    unfolding reconcileByTrackingPreferPO_def set_map_filter_iff by auto
  then show "\<exists>k. k \<noteq> [] \<and> (\<exists>r\<in>set (p @ s @ u). trackingKey r = k) \<and> emit k (bucketOf (p @ s @ u) k) = Some d"
    unfolding buckets_entry by blast
next
  assume "\<exists>k. k \<noteq> [] \<and> (\<exists>r\<in>set (p @ s @ u). trackingKey r = k) \<and> emit k (bucketOf (p @ s @ u) k) = Some d"
  then obtain k where k: "k \<noteq> []" "\<exists>r\<in>set (p @ s @ u). trackingKey r = k" "emit k (bucketOf (p @ s @ u) k) = Some d"
    by blast
  then have "(k, bucketOf (p @ s @ u) k) \<in> set (buckets p s u)"
    unfolding buckets_entry by blast
  then show "d \<in> set (reconcileByTrackingPreferPO p s u)"
    unfolding reconcileByTrackingPreferPO_def set_map_filter_iff using k(3) by force
qed

lemma map_filter_keys:
  "(\<And>k b. (k, b) \<in> set M \<Longrightarrow> \<exists>d. emit k b = Some d) \<Longrightarrow>
     map trackingUpload (List.map_filter (\<lambda>(k, bucket). emit k bucket) M) = map fst M"
proof (induction M)
  case Nil
  then show ?case by simp
next
  case (Cons x M)
  obtain k b where x: "x = (k, b)" by (cases x)
  from Cons.prems[of k b] x obtain d where d: "emit k b = Some d" by auto
  have "map trackingUpload (List.map_filter (\<lambda>(k, bucket). emit k bucket) M) = map fst M"
    using Cons by simp
  then show ?case using x d emit_tracking[OF d] by simp
qed

lemma reconcile_keys:
  "map trackingUpload (reconcileByTrackingPreferPO p s u) = map fst (buckets p s u)"
  unfolding reconcileByTrackingPreferPO_def
proof (rule map_filter_keys)
  fix k b assume "(k, b) \<in> set (buckets p s u)"
  then obtain r where "r \<in> set (p @ s @ u)" "trackingKey r = k" "b = bucketOf (p @ s @ u) k"
    unfolding buckets_entry by blast
  then show "\<exists>d. emit k b = Some d"
    using bucketOf_nonempty[of r "p @ s @ u" k] emit_Some[of b k] by blast
qed


lemma emit_verdict:
  "emit k b = Some d \<Longrightarrow>
     verdict d = (if po b \<noteq> [] then ''MATCH_PO'' else if ship b \<noteq> [] then ''MATCH_SHIPDOCS'' else ''UNMATCHED_UPS'')"
  by (auto simp: emit_def Let_def split: if_splits)

lemma groupOf_nonempty: "groupOf rows k m \<noteq> [] \<longleftrightarrow> (\<exists>r\<in>set rows. trackingKey r = k \<and> sourceMode r = m)"
  by (auto simp: groupOf_def filter_empty_conv)

lemma hd_sort_key_min:
  assumes "xs \<noteq> []"
  shows "hd (sort_key f xs) \<in> set xs \<and> (\<forall>x\<in>set xs. f (hd (sort_key f xs)) \<le> f x)"
proof -
  obtain y ys where ys: "sort_key f xs = y # ys"
    using assms by (cases "sort_key f xs") (auto dest: arg_cong[where f = length])
  have "set (y # ys) = set xs" using set_sort[of f xs] ys by simp
  moreover have "sorted (map f (y # ys))" using sorted_sort_key[of f xs] ys by simp
  ultimately show ?thesis unfolding ys by auto
qed

lemma hd_sort_key_first:
  assumes "xs \<noteq> []"
  shows "hd (sort_key f xs) = hd (filter (\<lambda>x. f x = f (hd (sort_key f xs))) xs)"
proof -
  obtain y ys where ys: "sort_key f xs = y # ys"
    using assms by (cases "sort_key f xs") (auto dest: arg_cong[where f = length])
  have "filter (\<lambda>x. f x = f y) (sort_key f xs) = filter (\<lambda>x. f x = f y) xs"
    by (rule sort_key_stable)
  then have "y # filter (\<lambda>x. f x = f y) ys = filter (\<lambda>x. f x = f y) xs"
    unfolding ys by simp
  then show ?thesis unfolding ys by (metis list.sel(1))
qed

lemma dateKey_empty: "dateKey r = [] \<longleftrightarrow> \<not> truthy (date r)"
  by (auto simp: dateKey_def js_or_def orEmpty_def truthy_def split: option.splits)

lemma dateKey_eq: "dateKey r = orEmpty (date r)"
  by (auto simp: dateKey_def js_or_def orEmpty_def truthy_def split: option.splits)

lemma pick_props:
  assumes "W \<noteq> []"
  shows "hd (sortByDate W) \<in> set W"
    and "\<forall>r\<in>set W. dateKey (hd (sortByDate W)) \<le> dateKey r"
    and "(\<exists>r\<in>set W. \<not> truthy (date r)) \<longrightarrow> \<not> truthy (date (hd (sortByDate W)))"
    and "hd (sortByDate W) = hd (filter (\<lambda>r. dateKey r = dateKey (hd (sortByDate W))) W)"
proof -
  show m: "hd (sortByDate W) \<in> set W" and le: "\<forall>r\<in>set W. dateKey (hd (sortByDate W)) \<le> dateKey r"
    using hd_sort_key_min[OF assms, of dateKey] unfolding sortByDate_def by blast+
  show "(\<exists>r\<in>set W. \<not> truthy (date r)) \<longrightarrow> \<not> truthy (date (hd (sortByDate W)))"
  proof
    assume "\<exists>r\<in>set W. \<not> truthy (date r)"
    then obtain r where "r \<in> set W" "dateKey r = []" unfolding dateKey_empty by blast
    then have "dateKey (hd (sortByDate W)) \<le> []" using le by metis
    then have "dateKey (hd (sortByDate W)) = []" by simp
    then show "\<not> truthy (date (hd (sortByDate W)))" unfolding dateKey_empty .
  qed
  show "hd (sortByDate W) = hd (filter (\<lambda>r. dateKey r = dateKey (hd (sortByDate W))) W)"
    using hd_sort_key_first[OF assms, of dateKey] unfolding sortByDate_def .
qed

lemma emit_winner:
  assumes "emit k b = Some d"
  shows "(chosenMode d = PO \<and> po b \<noteq> []) \<or> (chosenMode d = ShipDocs \<and> po b = [] \<and> ship b \<noteq> [])
         \<or> (chosenMode d = UPS \<and> po b = [] \<and> ship b = [] \<and> ups b \<noteq> [])"
proof -
  have "map_option chosenMode (emit k b) =
     (if po b \<noteq> [] then Some PO else if ship b \<noteq> [] then Some ShipDocs
      else if ups b \<noteq> [] then Some UPS else None)"
    by (simp add: emit_def Let_def)
  then show ?thesis using assms by (simp split: if_splits)
qed

lemma reconcile_pick:
  assumes "d \<in> set (reconcileByTrackingPreferPO p s u)"
  obtains b where "b = bucketOf (p @ s @ u) (trackingUpload d)" "emit (trackingUpload d) b = Some d"
    "winners (p @ s @ u) d \<noteq> []"
    "winners (p @ s @ u) d = (case chosenMode d of PO \<Rightarrow> po b | ShipDocs \<Rightarrow> ship b | UPS \<Rightarrow> ups b)"
proof -
  from assms obtain k where k: "emit k (bucketOf (p @ s @ u) k) = Some d"
    unfolding reconcile_mem by blast
  have t: "trackingUpload d = k" by (rule emit_tracking[OF k])
  have w: "winners (p @ s @ u) d = (case chosenMode d of PO \<Rightarrow> po (bucketOf (p @ s @ u) k)
      | ShipDocs \<Rightarrow> ship (bucketOf (p @ s @ u) k) | UPS \<Rightarrow> ups (bucketOf (p @ s @ u) k))"
    unfolding winners_def t by (cases "chosenMode d") (simp_all add: bucketOf_def)
  have "winners (p @ s @ u) d \<noteq> []"
    unfolding w using emit_winner[OF k] by auto
  then show ?thesis using that[of "bucketOf (p @ s @ u) k"] k t w by simp
qed


lemma emit_chosenMode:
  "map_option chosenMode (emit k b) =
     (if po b \<noteq> [] then Some PO else if ship b \<noteq> [] then Some ShipDocs
      else if ups b \<noteq> [] then Some UPS else None)"
  by (simp add: emit_def Let_def)

lemma emit_verdict_field:
  "map_option verdict (emit k b) =
     (if po b \<noteq> [] then Some ''MATCH_PO'' else if ship b \<noteq> [] then Some ''MATCH_SHIPDOCS''
      else if ups b \<noteq> [] then Some ''UNMATCHED_UPS'' else None)"
  by (simp add: emit_def Let_def)

lemma emit_orderNumber:
  "map_option orderNumber (emit k b) =
     (if po b \<noteq> [] then Some (orEmpty (js_or (poNumber (hd (sortByDate (po b)))) (Some ''(missing PO#)'')))
      else if ship b \<noteq> [] then Some (orEmpty (js_or (shipDocNumber (hd (sortByDate (ship b)))) (Some ''(missing ShipDoc#)'')))
      else if ups b \<noteq> [] then Some [] else None)"
  by (simp add: emit_def Let_def)

lemma emit_partyUpload:
  "map_option partyUpload (emit k b) =
     (if po b \<noteq> [] then Some (js_or (js_or (vendor (hd (sortByDate (po b)))) (customer (hd (sortByDate (po b))))) None)
      else if ship b \<noteq> [] then Some (js_or (js_or (customer (hd (sortByDate (ship b)))) (vendor (hd (sortByDate (ship b))))) None)
      else if ups b \<noteq> [] then Some (js_or (js_or (customer (hd (sortByDate (ups b)))) (vendor (hd (sortByDate (ups b))))) None)
      else None)"
  by (simp add: emit_def Let_def)

lemma emit_assertedDate:
  "map_option assertedDate (emit k b) =
     (if po b \<noteq> [] then Some (js_or (date (hd (sortByDate (po b))))
                                 (js_or (js_or (findDate (ups b)) (findDate (ship b))) None))
      else if ship b \<noteq> [] then Some (js_or (date (hd (sortByDate (ship b)))) (js_or (findDate (ups b)) None))
      else if ups b \<noteq> [] then Some (js_or (date (hd (sortByDate (ups b)))) None)
      else None)"
  by (simp add: emit_def Let_def)

lemma emit_PO:
  assumes "emit k b = Some d" "chosenMode d = PO"
  shows "po b \<noteq> []"
    and "verdict d = ''MATCH_PO''"
    and "orderNumber d = orEmpty (js_or (poNumber (hd (sortByDate (po b)))) (Some ''(missing PO#)''))"
    and "partyUpload d = js_or (js_or (vendor (hd (sortByDate (po b)))) (customer (hd (sortByDate (po b))))) None"
    and "assertedDate d = js_or (date (hd (sortByDate (po b))))
                            (js_or (js_or (findDate (ups b)) (findDate (ship b))) None)"
proof -
  show p: "po b \<noteq> []" using emit_chosenMode[of k b] assms by (simp split: if_splits)
  show "verdict d = ''MATCH_PO''" using emit_verdict_field[of k b] assms(1) p by simp
  show "orderNumber d = orEmpty (js_or (poNumber (hd (sortByDate (po b)))) (Some ''(missing PO#)''))"
    using emit_orderNumber[of k b] assms(1) p by simp
  show "partyUpload d = js_or (js_or (vendor (hd (sortByDate (po b)))) (customer (hd (sortByDate (po b))))) None"
    using emit_partyUpload[of k b] assms(1) p by simp
  show "assertedDate d = js_or (date (hd (sortByDate (po b))))
                            (js_or (js_or (findDate (ups b)) (findDate (ship b))) None)"
    using emit_assertedDate[of k b] assms(1) p by simp
qed

lemma emit_ShipDocs:
  assumes "emit k b = Some d" "chosenMode d = ShipDocs"
  shows "po b = []" and "ship b \<noteq> []"
    and "verdict d = ''MATCH_SHIPDOCS''"
    and "orderNumber d = orEmpty (js_or (shipDocNumber (hd (sortByDate (ship b)))) (Some ''(missing ShipDoc#)''))"
    and "partyUpload d = js_or (js_or (customer (hd (sortByDate (ship b)))) (vendor (hd (sortByDate (ship b))))) None"
    and "assertedDate d = js_or (date (hd (sortByDate (ship b)))) (js_or (findDate (ups b)) None)"
proof -
  show p: "po b = []" and q: "ship b \<noteq> []"
    using emit_chosenMode[of k b] assms by (simp_all split: if_splits)
  show "verdict d = ''MATCH_SHIPDOCS''" using emit_verdict_field[of k b] assms(1) p q by simp
  show "orderNumber d = orEmpty (js_or (shipDocNumber (hd (sortByDate (ship b)))) (Some ''(missing ShipDoc#)''))"
    using emit_orderNumber[of k b] assms(1) p q by simp
  show "partyUpload d = js_or (js_or (customer (hd (sortByDate (ship b)))) (vendor (hd (sortByDate (ship b))))) None"
    using emit_partyUpload[of k b] assms(1) p q by simp
  show "assertedDate d = js_or (date (hd (sortByDate (ship b)))) (js_or (findDate (ups b)) None)"
    using emit_assertedDate[of k b] assms(1) p q by simp
qed

lemma emit_UPS:
  assumes "emit k b = Some d" "chosenMode d = UPS"
  shows "po b = []" and "ship b = []" and "ups b \<noteq> []"
    and "verdict d = ''UNMATCHED_UPS''"
    and "orderNumber d = []"
    and "partyUpload d = js_or (js_or (customer (hd (sortByDate (ups b)))) (vendor (hd (sortByDate (ups b))))) None"
    and "assertedDate d = js_or (date (hd (sortByDate (ups b)))) None"
proof -
  show p: "po b = []" and q: "ship b = []" and r: "ups b \<noteq> []"
    using emit_chosenMode[of k b] assms by (simp_all split: if_splits)
  show "verdict d = ''UNMATCHED_UPS''" using emit_verdict_field[of k b] assms(1) p q r by simp
  show "orderNumber d = []" using emit_orderNumber[of k b] assms(1) p q r by simp
  show "partyUpload d = js_or (js_or (customer (hd (sortByDate (ups b)))) (vendor (hd (sortByDate (ups b))))) None"
    using emit_partyUpload[of k b] assms(1) p q r by simp
  show "assertedDate d = js_or (date (hd (sortByDate (ups b)))) None"
    using emit_assertedDate[of k b] assms(1) p q r by simp
qed

lemma js_or_truthy: "truthy a \<Longrightarrow> js_or a b = a"
  by (simp add: js_or_def)

lemma js_or_falsy: "\<not> truthy a \<Longrightarrow> js_or a b = b"
  by (simp add: js_or_def)

lemma orEmpty_js_or:
  "orEmpty (js_or x (Some y)) = (case x of None \<Rightarrow> y | Some n \<Rightarrow> if n = [] then y else n)"
  by (simp add: orEmpty_def js_or_def truthy_def split: option.splits)

lemma emit_verdict_mode:
  assumes "emit k b = Some d"
  shows "verdict d = ''MATCH_PO'' \<longleftrightarrow> chosenMode d = PO"
    and "verdict d = ''MATCH_SHIPDOCS'' \<longleftrightarrow> chosenMode d = ShipDocs"
    and "verdict d = ''UNMATCHED_UPS'' \<longleftrightarrow> chosenMode d = UPS"
  using emit_chosenMode[of k b] emit_verdict_field[of k b] assms by (simp_all split: if_splits)

lemma findDate_dated:
  "findDate rows = (if dated rows \<noteq> [] then date (hd (dated rows)) else None)"
  by (induction rows) (auto simp: findDate_def dated_def)

lemma findDate_truthy: "findDate rows = None \<or> truthy (findDate rows)"
proof (cases "dated rows = []")
  case True
  then show ?thesis by (simp add: findDate_dated)
next
  case False
  then have "hd (dated rows) \<in> set (dated rows)" by simp
  then have "truthy (date (hd (dated rows)))" unfolding dated_def by simp
  then show ?thesis using False by (simp add: findDate_dated)
qed

lemma js_or_None: "a = None \<or> truthy a \<Longrightarrow> js_or a None = a"
  by (auto simp: js_or_def)

lemma dated_hd_truthy: "dated rows \<noteq> [] \<Longrightarrow> truthy (date (hd (dated rows)))"
proof -
  assume "dated rows \<noteq> []"
  then have "hd (dated rows) \<in> set (dated rows)" by simp
  then show ?thesis unfolding dated_def by simp
qed

lemma truthy_None: "\<not> truthy None"
  by (simp add: truthy_def)

lemma fallback_PO:
  "js_or (js_or (findDate us) (findDate ss)) None =
     (if dated us \<noteq> [] then date (hd (dated us))
      else if dated ss \<noteq> [] then date (hd (dated ss)) else None)"
  using dated_hd_truthy[of us] dated_hd_truthy[of ss]
  by (simp add: js_or_def findDate_dated truthy_None)

lemma fallback_ShipDocs:
  "js_or (findDate us) None = (if dated us \<noteq> [] then date (hd (dated us)) else None)"
  using dated_hd_truthy[of us]
  by (simp add: js_or_def findDate_dated truthy_None)

lemma add_keys:
  "map fst (add r m) =
     (if trackingKey r = [] \<or> trackingKey r \<in> fst ` set m then map fst m else map fst m @ [trackingKey r])"
  by (simp add: add_eq update_keys)

lemma trackingKey_redate: "trackingKey (redate f r) = trackingKey r"
  by (simp add: trackingKey_def redate_def)

lemma keys_redate:
  "map fst (fold add (map (redate f) rows) []) = map fst (fold add rows [])"
proof (induction rows rule: rev_induct)
  case Nil
  then show ?case by simp
next
  case (snoc r rows)
  define M where "M = fold add rows []"
  define M' where "M' = fold add (map (redate f) rows) []"
  have IH: "map fst M' = map fst M" unfolding M_def M'_def by (rule snoc.IH)
  then have IH': "fst ` set M' = fst ` set M" by (metis list.set_map)
  have 1: "fold add (rows @ [r]) [] = add r M" unfolding M_def by simp
  have 2: "fold add (map (redate f) (rows @ [r])) [] = add (redate f r) M'" unfolding M'_def by simp
  show ?case unfolding 1 2 add_keys trackingKey_redate IH IH' ..
qed

lemma map_filter_verdicts:
  "(\<And>k b. (k, b) \<in> set M \<Longrightarrow> b = bucketOf rows k \<and> (\<exists>d. emit k b = Some d)) \<Longrightarrow>
     map (\<lambda>d. (trackingUpload d, verdict d)) (List.map_filter (\<lambda>(k, bucket). emit k bucket) M)
       = map (\<lambda>k. (k, verdictOf rows k)) (map fst M)"
proof (induction M)
  case Nil
  then show ?case by simp
next
  case (Cons x M)
  obtain k b where x: "x = (k, b)" by (cases x)
  have kb: "(k, b) \<in> set (x # M)" using x by simp
  from Cons.prems[OF kb] obtain d where d: "emit k b = Some d" and b: "b = bucketOf rows k" by blast
  have v: "verdict d = verdictOf rows k"
    using emit_verdict[OF d] unfolding b verdictOf_def by (simp add: bucketOf_def)
  have "map (\<lambda>d. (trackingUpload d, verdict d)) (List.map_filter (\<lambda>(k, bucket). emit k bucket) M)
       = map (\<lambda>k. (k, verdictOf rows k)) (map fst M)"
    using Cons by simp
  then show ?case using x d emit_tracking[OF d] v by simp
qed

lemma reconcile_verdicts:
  "map (\<lambda>d. (trackingUpload d, verdict d)) (reconcileByTrackingPreferPO p s u)
     = map (\<lambda>k. (k, verdictOf (p @ s @ u) k)) (map fst (buckets p s u))"
  unfolding reconcileByTrackingPreferPO_def
proof (rule map_filter_verdicts)
  fix k b assume "(k, b) \<in> set (buckets p s u)"
  then obtain r where "r \<in> set (p @ s @ u)" "trackingKey r = k" "b = bucketOf (p @ s @ u) k"
    unfolding buckets_entry by blast
  then show "b = bucketOf (p @ s @ u) k \<and> (\<exists>d. emit k b = Some d)"
    using bucketOf_nonempty[of r "p @ s @ u" k] emit_Some[of b k] by blast
qed

lemma groupOf_redate: "groupOf (map (redate f) rows) k m = map (redate f) (groupOf rows k m)"
  by (simp add: groupOf_def filter_map comp_def trackingKey_def redate_def)

lemma verdictOf_redate: "verdictOf (map (redate f) rows) k = verdictOf rows k"
  by (simp add: verdictOf_def groupOf_redate)

lemma assertedDate_eq:
  assumes d: "d \<in> set (reconcileByTrackingPreferPO poRows shipRows upsRows)"
  shows "assertedDate d = shownDate (poRows @ shipRows @ upsRows) d"
proof -
  let ?rows = "poRows @ shipRows @ upsRows"
  let ?W = "winners ?rows d"
  let ?pick = "hd (sortByDate ?W)"
  from d obtain b where b: "b = bucketOf ?rows (trackingUpload d)" "emit (trackingUpload d) b = Some d"
    "?W = (case chosenMode d of PO \<Rightarrow> po b | ShipDocs \<Rightarrow> ship b | UPS \<Rightarrow> ups b)"
    by (rule reconcile_pick)
  have g: "ups b = groupOf ?rows (trackingUpload d) UPS" "ship b = groupOf ?rows (trackingUpload d) ShipDocs"
    unfolding b(1) by (simp_all add: bucketOf_def)
  show ?thesis
  proof (cases "chosenMode d")
    case PO
    have "assertedDate d = js_or (date ?pick) (js_or (js_or (findDate (ups b)) (findDate (ship b))) None)"
      using emit_PO(5)[OF b(2) PO] b(3) PO by simp
    then have "assertedDate d = js_or (date ?pick)
        (if dated (groupOf ?rows (trackingUpload d) UPS) \<noteq> [] then date (hd (dated (groupOf ?rows (trackingUpload d) UPS)))
         else if dated (groupOf ?rows (trackingUpload d) ShipDocs) \<noteq> [] then date (hd (dated (groupOf ?rows (trackingUpload d) ShipDocs))) else None)"
      unfolding fallback_PO g .
    then show ?thesis unfolding shownDate_def Let_def js_or_def[of "date ?pick"] PO by (simp only: if_True refl)
  next
    case ShipDocs
    have "assertedDate d = js_or (date ?pick) (js_or (findDate (ups b)) None)"
      using emit_ShipDocs(6)[OF b(2) ShipDocs] b(3) ShipDocs by simp
    then have "assertedDate d = js_or (date ?pick)
        (if dated (groupOf ?rows (trackingUpload d) UPS) \<noteq> [] then date (hd (dated (groupOf ?rows (trackingUpload d) UPS))) else None)"
      unfolding fallback_ShipDocs g .
    then show ?thesis unfolding shownDate_def Let_def js_or_def[of "date ?pick"] ShipDocs
      by (simp only: if_True if_False refl SourceMode.distinct)
  next
    case UPS
    have "assertedDate d = js_or (date ?pick) None"
      using emit_UPS(7)[OF b(2) UPS] b(3) UPS by simp
    then show ?thesis unfolding shownDate_def Let_def js_or_def[of "date ?pick"] UPS
      by (simp only: if_True if_False refl SourceMode.distinct)
  qed
qed

lemma dated_hd_origin:
  assumes "dated (groupOf rows k m) \<noteq> []"
  shows "hd (dated (groupOf rows k m)) \<in> set rows \<and> trackingKey (hd (dated (groupOf rows k m))) = k
         \<and> truthy (date (hd (dated (groupOf rows k m))))"
proof -
  have "hd (dated (groupOf rows k m)) \<in> set (dated (groupOf rows k m))" using assms by simp
  then show ?thesis unfolding dated_def groupOf_def by simp
qed

lemma groupOf_mem: "p \<in> set (groupOf rows k m) \<Longrightarrow> p \<in> set rows \<and> trackingKey p = k"
  by (simp add: groupOf_def)

lemma pick_origin:
  assumes "d \<in> set (reconcileByTrackingPreferPO poRows shipRows upsRows)"
  shows "hd (sortByDate (winners (poRows @ shipRows @ upsRows) d)) \<in> set (poRows @ shipRows @ upsRows)
         \<and> trackingKey (hd (sortByDate (winners (poRows @ shipRows @ upsRows) d))) = trackingUpload d"
proof -
  from assms obtain b where b: "winners (poRows @ shipRows @ upsRows) d \<noteq> []"
    by (rule reconcile_pick)
  have "hd (sortByDate (winners (poRows @ shipRows @ upsRows) d)) \<in> set (winners (poRows @ shipRows @ upsRows) d)"
    by (rule pick_props(1)[OF b])
  then show ?thesis unfolding winners_def by (rule groupOf_mem)
qed

lemma shownDate_origin:
  assumes "d \<in> set (reconcileByTrackingPreferPO poRows shipRows upsRows)"
  shows "shownDate (poRows @ shipRows @ upsRows) d = None \<or>
         (\<exists>r\<in>set (poRows @ shipRows @ upsRows). trackingKey r = trackingUpload d \<and> truthy (date r) \<and>
            shownDate (poRows @ shipRows @ upsRows) d = date r)"
proof -
  let ?rows = "poRows @ shipRows @ upsRows"
  let ?k = "trackingUpload d"
  note p = pick_origin[OF assms]
  note u = dated_hd_origin[of ?rows ?k UPS]
  note s = dated_hd_origin[of ?rows ?k ShipDocs]
  show ?thesis
  proof (cases "truthy (date (hd (sortByDate (winners ?rows d))))")
    case True
    then have "shownDate ?rows d = date (hd (sortByDate (winners ?rows d)))"
      by (simp add: shownDate_def Let_def)
    then show ?thesis using p True by metis
  next
    case F: False
    show ?thesis
    proof (cases "dated (groupOf ?rows ?k UPS) \<noteq> [] \<and> chosenMode d \<noteq> UPS")
      case True
      then have "shownDate ?rows d = date (hd (dated (groupOf ?rows ?k UPS)))"
        using F by (cases "chosenMode d") (simp_all add: shownDate_def Let_def)
      then show ?thesis using u True by metis
    next
      case F2: False
      show ?thesis
      proof (cases "dated (groupOf ?rows ?k ShipDocs) \<noteq> [] \<and> chosenMode d = PO")
        case True
        then have "shownDate ?rows d = date (hd (dated (groupOf ?rows ?k ShipDocs)))"
          using F F2 by (simp add: shownDate_def Let_def)
        then show ?thesis using s True by metis
      next
        case False
        then have "shownDate ?rows d = None"
          using F F2 by (cases "chosenMode d") (simp_all add: shownDate_def Let_def)
        then show ?thesis by simp
      qed
    qed
  qed
qed

lemma shownDate_None_iff:
  "shownDate rows d = None \<longleftrightarrow>
     \<not> truthy (date (hd (sortByDate (winners rows d)))) \<and>
     (chosenMode d = UPS \<or> dated (groupOf rows (trackingUpload d) UPS) = []) \<and>
     (chosenMode d \<noteq> PO \<or> dated (groupOf rows (trackingUpload d) ShipDocs) = [])"
proof -
  have t: "truthy x \<Longrightarrow> x \<noteq> None" for x by (cases x) (simp_all add: truthy_def)
  note u = dated_hd_truthy[of "groupOf rows (trackingUpload d) UPS", THEN t]
  note s = dated_hd_truthy[of "groupOf rows (trackingUpload d) ShipDocs", THEN t]
  show ?thesis
    using u s t[of "date (hd (sortByDate (winners rows d)))"]
    by (cases "chosenMode d") (auto simp: shownDate_def Let_def)
qed

section \<open>Properties of the truth-source verification\<close>

lemma score_table:
  "score ''OK'' = Some 3" "score ''MISMATCH'' = Some 2" "score ''NOT_FOUND'' = Some 1" "score ''ERROR'' = Some 0"
  by (simp_all add: score_def SCORE_def)

lemma js_gt_Some:
  assumes "score a = Some q" "score b = Some p"
  shows "js_gt (reading a) (reading b) \<longleftrightarrow> p < q"
  using assms by (simp add: js_gt_def reading_def)

lemma reconcileOne_mode: "reconcileOne decide ot mode r = (Inr res, c) \<Longrightarrow> res_mode res = mode"
  by (auto simp: reconcileOne_def split: sum.splits)

lemma reconcileOne_calls: "snd (reconcileOne decide ot mode r) = snd (gather ot mode r)"
  by (simp add: reconcileOne_def split: sum.splits)

lemma reconcileRow_both:
  assumes "reconcileOne decide ot (case r_sourceMode r of None \<Rightarrow> ModePO | Some m \<Rightarrow> m) r = (Inr resPref, c1)"
      and "reconcileOne decide ot
             (if (case r_sourceMode r of None \<Rightarrow> ModePO | Some m \<Rightarrow> m) = ModePO then ModeSO else ModePO) r
           = (Inr resOther, c2)"
  shows "t_chosenMode (fst (reconcileRow decide ot i r)) =
           modeName (res_mode (if js_gt (reading (res_verdict resOther)) (reading (res_verdict resPref))
                               then resOther else resPref))"
    and "t_verdict (fst (reconcileRow decide ot i r)) =
           res_verdict (if js_gt (reading (res_verdict resOther)) (reading (res_verdict resPref))
                        then resOther else resPref)"
    and "snd (reconcileRow decide ot i r) = c1 @ c2"
  using assms by (simp_all add: reconcileRow_def Let_def)




lemma gather_order_rejected:
  assumes "truthy (r_orderNumber r)" "catchNull (getOrder ot mode (orEmpty (r_orderNumber r))) = None"
  shows "gather ot mode r =
           (\<lparr>in_mode = mode, in_partyUpload = r_partyName r, in_trackingUpload = r_trackingNumber r,
              in_assertedDate = r_assertedDate r, orderExists = False, packages = [], partyOT = None\<rparr>,
            [GetOrder mode (orEmpty (r_orderNumber r))])"
  using assms by (simp add: gather_def Let_def)

lemma gather_activity_none:
  assumes "truthy (r_orderNumber r)" "getOrder ot mode (orEmpty (r_orderNumber r)) = Resolved (Some ord)"
      and "catchNull (getActivity ot mode (orEmpty (r_orderNumber r))) = None"
  shows "gather ot mode r =
           (\<lparr>in_mode = mode, in_partyUpload = r_partyName r, in_trackingUpload = r_trackingNumber r,
              in_assertedDate = r_assertedDate r, orderExists = True, packages = [],
              partyOT = js_nullish (o_partyName ord) (js_nullish (o_vendorName ord) (o_customerName ord))\<rparr>,
            [GetOrder mode (orEmpty (r_orderNumber r)), GetActivity mode (orEmpty (r_orderNumber r))])"
  using assms by (simp add: gather_def Let_def catchNull_def)

lemma reconcileOne_cong:
  assumes "gather ot mode r = gather ot' mode r"
  shows "reconcileOne decide ot mode r = reconcileOne decide ot' mode r"
  unfolding reconcileOne_def assms ..

lemma reconcileRow_assertedDate:
  "t_assertedDate (fst (reconcileRow decide ot i r)) = wireDate (r_assertedDate r)"
  by (simp add: reconcileRow_def Let_def errorDetail_def split: prod.splits sum.splits)

section \<open>Properties of numbers and dates as text\<close>

lemma digitChar_isDigit: "isDigit (digitChar n)"
proof -
  have "list_all isDigit ''0123456789''" by (simp add: isDigit_def less_eq_char_def)
  moreover have "n mod 10 < length ''0123456789''" by simp
  ultimately show ?thesis unfolding digitChar_def list_all_length by blast
qed

lemma showNat_digits: "list_all isDigit (showNat n)"
proof (induction n rule: showNat.induct)
  case (1 n)
  show ?case
  proof (cases "n < 10")
    case True
    then show ?thesis by (subst showNat.simps) (simp add: digitChar_isDigit)
  next
    case False
    then show ?thesis using 1 by (subst showNat.simps) (simp add: digitChar_isDigit)
  qed
qed

lemma showNat_nonempty: "showNat n \<noteq> []"
  by (subst showNat.simps) simp

lemma showNat_length_le: "0 < k \<Longrightarrow> n < 10 ^ k \<Longrightarrow> length (showNat n) \<le> k"
proof (induction n arbitrary: k rule: showNat.induct)
  case (1 n)
  show ?case
  proof (cases "n < 10")
    case True
    then show ?thesis using 1(2) by (subst showNat.simps) simp
  next
    case False
    obtain j where k: "k = Suc j" using 1(2) by (cases k) auto
    have j: "0 < j"
    proof (rule ccontr)
      assume "\<not> 0 < j"
      then have "k = 1" using k by simp
      then show False using 1(3) False by simp
    qed
    have "n div 10 < 10 ^ j" using 1(3) k by (simp add: less_mult_imp_div_less mult.commute)
    then have "length (showNat (n div 10)) \<le> j" using 1(1)[OF False j] by simp
    then show ?thesis using False k by (subst showNat.simps) simp
  qed
qed

lemma showNat_length_ge: "10 ^ k \<le> n \<Longrightarrow> k < length (showNat n)"
proof (induction n arbitrary: k rule: showNat.induct)
  case (1 n)
  show ?case
  proof (cases "n < 10")
    case True
    have "k = 0"
    proof (rule ccontr)
      assume "k \<noteq> 0"
      then obtain j where "k = Suc j" by (cases k) auto
      then have "(10::nat) \<le> 10 ^ k" by simp
      then show False using 1(2) True by simp
    qed
    then show ?thesis by (subst showNat.simps) simp
  next
    case False
    show ?thesis
    proof (cases k)
      case 0
      then show ?thesis using showNat_nonempty[of n] by (cases "showNat n") auto
    next
      case (Suc j)
      have "10 ^ j \<le> n div 10" using 1(2) Suc by (simp add: less_eq_div_iff_mult_less_eq mult.commute)
      then have "j < length (showNat (n div 10))" using 1(1)[OF False] by simp
      then show ?thesis using False Suc by (subst showNat.simps) simp
    qed
  qed
qed

lemma showNat_length_4: "1000 \<le> n \<Longrightarrow> n \<le> 9999 \<Longrightarrow> length (showNat n) = 4"
  using showNat_length_le[of 4 n] showNat_length_ge[of 3 n] by simp

lemma length_padStart: "length (padStart n c s) = max n (length s)"
  by (simp add: padStart_def)

lemma padStart_digits: "isDigit c \<Longrightarrow> list_all isDigit s \<Longrightarrow> list_all isDigit (padStart n c s)"
  by (auto simp: padStart_def list_all_iff)

lemma zero_isDigit: "isDigit (CHR ''0'')"
  by (simp add: isDigit_def)

lemma hyphen_not_digit: "\<not> isDigit (CHR ''-'')"
  by (simp add: isDigit_def less_eq_char_def)

lemma plus_not_digit: "\<not> isDigit (CHR ''+'')"
  by (simp add: isDigit_def less_eq_char_def)

lemma isYMD_parts:
  assumes "length a = 4" "length b = 2" "length c = 2"
      and "list_all isDigit a" "list_all isDigit b" "list_all isDigit c"
  shows "isYMD (a @ ''-'' @ b @ ''-'' @ c)"
  using assms by (simp add: isYMD_def nth_append)

lemma pad2_length: "n < 100 \<Longrightarrow> length (padStart 2 (CHR ''0'') (showNat n)) = 2"
  using showNat_length_le[of 2 n] by (simp add: length_padStart max_def)

lemma pad_digits: "list_all isDigit (padStart n (CHR ''0'') (showNat k))"
  by (rule padStart_digits[OF zero_isDigit showNat_digits])

lemma pad4_length: "n \<le> 9999 \<Longrightarrow> length (padStart 4 (CHR ''0'') (showNat n)) = 4"
  using showNat_length_le[of 4 n] by (simp add: length_padStart max_def)

lemma replicate_small:
  "replicate 1 c = [c]" "replicate 2 c = [c, c]" "replicate 3 c = [c, c, c]"
  "replicate 4 c = [c, c, c, c]" "replicate 5 c = [c, c, c, c, c]"
  by (simp_all add: numeral_2_eq_2 numeral_3_eq_3 eval_nat_numeral)
lemmas text_eval = toISOString_def isoYear_def ymdText_def showInt_def padStart_def showNat.simps
  digitChar_def replicate_small

lemma take10_parts:
  assumes "length a = 4" "length b = 2" "length c = 2"
  shows "take 10 (a @ ''-'' @ b @ ''-'' @ c @ r) = a @ ''-'' @ b @ ''-'' @ c"
  using assms by simp

lemma isoYear_4: "0 \<le> y \<Longrightarrow> y \<le> 9999 \<Longrightarrow> isoYear y = padStart 4 (CHR ''0'') (showNat (nat y))"
  by (simp add: isoYear_def)

lemma wireDate_in_range:
  assumes "validDate t" "0 \<le> utcFullYear t" "utcFullYear t \<le> 9999"
  shows "take 10 (toISOString t) =
           padStart 4 (CHR ''0'') (showNat (nat (utcFullYear t))) @ ''-'' @
           padStart 2 (CHR ''0'') (showNat (utcMonth t + 1)) @ ''-'' @
           padStart 2 (CHR ''0'') (showNat (utcDate t))"
    and "isYMD (take 10 (toISOString t))"
proof -
  have la: "length (padStart 4 (CHR ''0'') (showNat (nat (utcFullYear t)))) = 4"
    using assms(2,3) by (intro pad4_length) simp
  have lb: "length (padStart 2 (CHR ''0'') (showNat (utcMonth t + 1))) = 2"
    using assms(1) by (intro pad2_length) (simp add: validDate_def)
  have lc: "length (padStart 2 (CHR ''0'') (showNat (utcDate t))) = 2"
    using assms(1) by (intro pad2_length) (simp add: validDate_def)
  show e: "take 10 (toISOString t) =
           padStart 4 (CHR ''0'') (showNat (nat (utcFullYear t))) @ ''-'' @
           padStart 2 (CHR ''0'') (showNat (utcMonth t + 1)) @ ''-'' @
           padStart 2 (CHR ''0'') (showNat (utcDate t))"
    unfolding toISOString_def isoYear_4[OF assms(2,3)]
    using take10_parts[OF la lb lc] by simp
  show "isYMD (take 10 (toISOString t))"
    unfolding e by (rule isYMD_parts[OF la lb lc pad_digits pad_digits pad_digits])
qed

lemma wireDate_out_of_range:
  assumes "utcFullYear t < 0 \<or> 9999 < utcFullYear t"
  shows "\<not> isYMD (take 10 (toISOString t))"
proof -
  obtain c r where c: "toISOString t = c # r" "\<not> isDigit c"
    using assms unfolding toISOString_def isoYear_def
    by (auto simp: hyphen_not_digit plus_not_digit)
  show ?thesis unfolding c(1) isYMD_def using c(2) by simp
qed

lemma rowDate_shape:
  "rowDate newDate c = None \<or> (\<exists>y m d. rowDate newDate c = Some (ymdText y m d))"
  unfolding rowDate_def toISODateOrNull_def Let_def
  by (auto split: option.splits Cell.splits prod.splits)

lemma parseUploadRow_date:
  "date (parseUploadRow newDate mode i raw) = rowDate newDate (pickFirst (lcKeyed raw) dateAliases)"
  by (simp add: parseUploadRow_def Let_def)

lemma parseUploadFrom_dates:
  "\<forall>u\<in>set (parseUploadFrom newDate mode i rows).
     date u = None \<or> (\<exists>y m d. date u = Some (ymdText y m d))"
proof (induction rows arbitrary: i)
  case Nil
  then show ?case by simp
next
  case (Cons r rows)
  have "date (parseUploadRow newDate mode i r) = None \<or>
        (\<exists>y m d. date (parseUploadRow newDate mode i r) = Some (ymdText y m d))"
    unfolding parseUploadRow_date by (rule rowDate_shape)
  then show ?case using Cons.IH[of "i + 1"] by simp
qed

lemma ymdText_isYMD:
  assumes "m < 100" "d < 100"
  shows "isYMD (ymdText y m d) \<longleftrightarrow> 1000 \<le> y \<and> y \<le> 9999"
proof
  assume r: "1000 \<le> y \<and> y \<le> 9999"
  then have s: "showInt y = showNat (nat y)" by (simp add: showInt_def)
  have "1000 \<le> nat y" "nat y \<le> 9999" using r by linarith+
  then have l: "length (showNat (nat y)) = 4" by (rule showNat_length_4)
  show "isYMD (ymdText y m d)"
    unfolding ymdText_def s
    by (rule isYMD_parts[OF l pad2_length[OF assms(1)] pad2_length[OF assms(2)]
          showNat_digits pad_digits pad_digits])
next
  assume a: "isYMD (ymdText y m d)"
  show "1000 \<le> y \<and> y \<le> 9999"
  proof (rule ccontr)
    assume n: "\<not> (1000 \<le> y \<and> y \<le> 9999)"
    consider "y < 0" | "0 \<le> y" "y < 1000" | "9999 < y" using n by linarith
    then show False
    proof cases
      case 1
      then have "ymdText y m d = CHR ''-'' # (showNat (nat (- y)) @ ''-'' @
          padStart 2 (CHR ''0'') (showNat m) @ ''-'' @ padStart 2 (CHR ''0'') (showNat d))"
        by (simp add: ymdText_def showInt_def)
      then show False using a by (simp add: isYMD_def hyphen_not_digit)
    next
      case 2
      define s where "s = showNat (nat y)"
      define rest where "rest = padStart 2 (CHR ''0'') (showNat m) @ ''-'' @ padStart 2 (CHR ''0'') (showNat d)"
      have e: "ymdText y m d = s @ CHR ''-'' # rest"
        using 2 by (simp add: ymdText_def showInt_def s_def rest_def)
      have l: "length s \<le> 3" unfolding s_def using 2 by (intro showNat_length_le) simp_all
      obtain k where k: "4 - length s = Suc k" using l by (cases "4 - length s") auto
      have "take 4 (s @ CHR ''-'' # rest) = s @ CHR ''-'' # take k rest"
        using k by simp
      then have "CHR ''-'' \<in> set (take 4 (s @ CHR ''-'' # rest))" by simp
      moreover have "list_all isDigit (take 4 (s @ CHR ''-'' # rest))"
        using a unfolding e isYMD_def by simp
      ultimately show False using hyphen_not_digit unfolding list_all_iff by blast
    next
      case 3
      define s where "s = showNat (nat y)"
      define rest where "rest = padStart 2 (CHR ''0'') (showNat m) @ ''-'' @ padStart 2 (CHR ''0'') (showNat d)"
      have e: "ymdText y m d = s @ CHR ''-'' # rest"
        using 3 by (simp add: ymdText_def showInt_def s_def rest_def)
      have "10 ^ 4 \<le> nat y" using 3 by simp
      then have l: "4 < length s" unfolding s_def by (rule showNat_length_ge)
      have "isDigit (s ! 4)" using showNat_digits[of "nat y"] l unfolding s_def list_all_length by simp
      moreover have "(s @ CHR ''-'' # rest) ! 4 = s ! 4" using l by (simp add: nth_append)
      ultimately show False using a hyphen_not_digit unfolding e isYMD_def by simp
    qed
  qed
qed

lemma rowDate_exact:
  "rowDate newDate c =
     (case c of
        None \<Rightarrow> None
      | Some (CellText s) \<Rightarrow>
          (if s = [] then None else map_option (\<lambda>(y, m, d). ymdText y (m + 1) d) (newDate s))
      | Some (CellNumber s code) \<Rightarrow> map_option (\<lambda>(y, m, d). ymdText y m d) code
      | Some (CellDate s l) \<Rightarrow> map_option (\<lambda>(y, m, d). ymdText y (m + 1) d) l
      | Some (CellOther s) \<Rightarrow> None)"
  unfolding rowDate_def toISODateOrNull_def Let_def
  by (auto split: option.splits Cell.splits prod.splits simp: truthy_def)

lemma parseUploadFrom_nth:
  "k < length rows \<Longrightarrow> parseUploadFrom newDate mode i rows ! k = parseUploadRow newDate mode (i + k) (rows ! k)"
proof (induction rows arbitrary: i k)
  case Nil
  then show ?case by simp
next
  case (Cons r rows)
  show ?case
  proof (cases k)
    case 0
    then show ?thesis by simp
  next
    case (Suc j)
    then have "j < length rows" using Cons.prems by simp
    then show ?thesis using Cons.IH[of j "i + 1"] Suc by simp
  qed
qed

lemma iso_examples:
  "take 10 (toISOString (JsDate 2024 1 1 0 0 0 0)) = ''2024-02-01''"
  "toISOString (JsDate 12345 0 1 0 0 0 0) = ''+012345-01-01T00:00:00.000Z''"
  "take 10 (toISOString (JsDate 12345 0 1 0 0 0 0)) = ''+012345-01''"
  by (simp_all add: text_eval)

section \<open>Properties of the parsers\<close>













































subsection \<open>Source precedence\<close>

text \<open>
  Claim C2. In the cross-file precedence merge the verdict of every result is decided by
  the sources present in its tracking-number group: \<open>MATCH_PO\<close> when the group holds a
  row of source PO, otherwise \<open>MATCH_SHIPDOCS\<close> when it holds a row of source ShipDocs,
  otherwise \<open>UNMATCHED_UPS\<close>. In particular a tracking number carried by a row of the PO
  file and by a row of the ShipDocs file has a result, and every result for it says
  \<open>MATCH_PO\<close>, never \<open>MATCH_SHIPDOCS\<close>. The handler tags the rows of the PO file with
  source PO and those of the ShipDocs file with source ShipDocs, which is what the
  second part assumes of the two rows.
\<close>

theorem precedence_verdict:
  "(\<forall>d\<in>set (reconcileByTrackingPreferPO poRows shipRows upsRows).
      verdict d =
        (if \<exists>r\<in>set (poRows @ shipRows @ upsRows). trackingKey r = trackingUpload d \<and> sourceMode r = PO
         then ''MATCH_PO''
         else if \<exists>r\<in>set (poRows @ shipRows @ upsRows). trackingKey r = trackingUpload d \<and> sourceMode r = ShipDocs
         then ''MATCH_SHIPDOCS''
         else ''UNMATCHED_UPS'')) \<and>
   (\<forall>a\<in>set poRows. \<forall>b\<in>set shipRows.
      sourceMode a = PO \<and> sourceMode b = ShipDocs \<and> trackingKey a = trackingKey b \<and> trackingKey a \<noteq> [] \<longrightarrow>
        (\<exists>d\<in>set (reconcileByTrackingPreferPO poRows shipRows upsRows). trackingUpload d = trackingKey a) \<and>
        (\<forall>d\<in>set (reconcileByTrackingPreferPO poRows shipRows upsRows).
           trackingUpload d = trackingKey a \<longrightarrow> verdict d = ''MATCH_PO'' \<and> verdict d \<noteq> ''MATCH_SHIPDOCS''))"
proof -
  let ?rows = "poRows @ shipRows @ upsRows"
  let ?out = "reconcileByTrackingPreferPO poRows shipRows upsRows"
  have main: "verdict d =
        (if \<exists>r\<in>set ?rows. trackingKey r = trackingUpload d \<and> sourceMode r = PO then ''MATCH_PO''
         else if \<exists>r\<in>set ?rows. trackingKey r = trackingUpload d \<and> sourceMode r = ShipDocs
         then ''MATCH_SHIPDOCS'' else ''UNMATCHED_UPS'')" if "d \<in> set ?out" for d
  proof -
    from that obtain k where k: "emit k (bucketOf ?rows k) = Some d"
      unfolding reconcile_mem by blast
    have t: "trackingUpload d = k" by (rule emit_tracking[OF k])
    show ?thesis
      using emit_verdict[OF k] unfolding t
      by (simp add: bucketOf_def groupOf_nonempty del: set_append)
  qed
  have part: "(\<exists>d\<in>set ?out. trackingUpload d = trackingKey a) \<and>
        (\<forall>d\<in>set ?out. trackingUpload d = trackingKey a \<longrightarrow> verdict d = ''MATCH_PO'' \<and> verdict d \<noteq> ''MATCH_SHIPDOCS'')"
    if a: "a \<in> set poRows" "sourceMode a = PO" "trackingKey a \<noteq> []" for a
  proof -
    have ain: "a \<in> set ?rows" using a by simp
    obtain d where d: "emit (trackingKey a) (bucketOf ?rows (trackingKey a)) = Some d"
      using bucketOf_nonempty[OF ain refl] emit_Some by blast
    have "d \<in> set ?out" unfolding reconcile_mem using d a(3) ain by blast
    moreover have "trackingUpload d = trackingKey a" by (rule emit_tracking[OF d])
    ultimately have ex: "\<exists>d\<in>set ?out. trackingUpload d = trackingKey a" by blast
    have "verdict d' = ''MATCH_PO''" if "d' \<in> set ?out" "trackingUpload d' = trackingKey a" for d'
      using main[OF that(1)] that(2) ain a(2) by auto
    then show ?thesis using ex by simp
  qed
  show ?thesis using main part by blast
qed

theorem precedence_verdict_witness:
  "(sourceMode exPO = PO \<and> sourceMode exShip = ShipDocs \<and>
    trackingKey exPO = trackingKey exShip \<and> trackingKey exPO \<noteq> []) \<and>
   hd (reconcileByTrackingPreferPO [exPO] [exShip] [exUPS])
     \<in> set (reconcileByTrackingPreferPO [exPO] [exShip] [exUPS]) \<and>
   trackingUpload (hd (reconcileByTrackingPreferPO [exPO] [exShip] [exUPS])) = trackingKey exPO \<and>
   verdict (hd (reconcileByTrackingPreferPO [exPO] [exShip] [exUPS])) = ''MATCH_PO'' \<and>
   verdict (hd (reconcileByTrackingPreferPO [exPO] [exShip] [exUPS])) \<noteq> ''MATCH_SHIPDOCS''"
proof -
  have k: "trackingKey exPO = ''1Z999AA10123456784''" "trackingKey exShip = ''1Z999AA10123456784''"
    by code_simp+
  have m: "sourceMode exPO = PO" "sourceMode exShip = ShipDocs"
    by (simp_all add: exPO_def exShip_def)
  have h: "sourceMode exPO = PO \<and> sourceMode exShip = ShipDocs \<and> trackingKey exPO = trackingKey exShip \<and> trackingKey exPO \<noteq> []"
    unfolding k m by simp
  have mem: "hd (reconcileByTrackingPreferPO [exPO] [exShip] [exUPS])
     \<in> set (reconcileByTrackingPreferPO [exPO] [exShip] [exUPS])"
    by code_simp
  have t: "trackingUpload (hd (reconcileByTrackingPreferPO [exPO] [exShip] [exUPS])) = trackingKey exPO"
    by code_simp
  have "(\<exists>d\<in>set (reconcileByTrackingPreferPO [exPO] [exShip] [exUPS]). trackingUpload d = trackingKey exPO) \<and>
        (\<forall>d\<in>set (reconcileByTrackingPreferPO [exPO] [exShip] [exUPS]).
           trackingUpload d = trackingKey exPO \<longrightarrow> verdict d = ''MATCH_PO'' \<and> verdict d \<noteq> ''MATCH_SHIPDOCS'')"
    apply (rule precedence_verdict[of "[exPO]" "[exShip]" "[exUPS]", THEN conjunct2, THEN bspec, THEN bspec, THEN mp])
      apply (rule list.set_intros(1))
     apply (rule list.set_intros(1))
    apply (rule h)
    done
  note v = this[THEN conjunct2, THEN bspec, OF mem, THEN mp, OF t]
  show ?thesis by (rule conjI[OF h conjI[OF mem conjI[OF t v]]])
qed

subsection \<open>One result per tracking number\<close>

text \<open>
  Claim C3. The merge emits exactly one result for each distinct normalised tracking
  number of the input rows, however many rows share it: the tracking numbers of the
  results are pairwise distinct, they are exactly the non-empty keys of the rows of the
  three files, and the number of results is the number of such keys. A row whose
  normalised tracking number is empty contributes nothing, the empty key never being
  among them.
\<close>

theorem one_result_per_tracking:
  "distinct (map trackingUpload (reconcileByTrackingPreferPO poRows shipRows upsRows)) \<and>
   set (map trackingUpload (reconcileByTrackingPreferPO poRows shipRows upsRows)) =
     {k. k \<noteq> [] \<and> (\<exists>r\<in>set (poRows @ shipRows @ upsRows). trackingKey r = k)} \<and>
   length (reconcileByTrackingPreferPO poRows shipRows upsRows) =
     card {k. k \<noteq> [] \<and> (\<exists>r\<in>set (poRows @ shipRows @ upsRows). trackingKey r = k)}"
proof -
  let ?out = "reconcileByTrackingPreferPO poRows shipRows upsRows"
  let ?K = "{k. k \<noteq> [] \<and> (\<exists>r\<in>set (poRows @ shipRows @ upsRows). trackingKey r = k)}"
  have d: "distinct (map trackingUpload ?out)" and s: "set (map trackingUpload ?out) = ?K"
    unfolding reconcile_keys buckets_eq using keys_buckets[of "poRows @ shipRows @ upsRows"] by blast+
  have "length ?out = length (map trackingUpload ?out)" by simp
  also have "\<dots> = card (set (map trackingUpload ?out))" using distinct_card[OF d] by simp
  finally have "length ?out = card ?K" unfolding s .
  then show ?thesis using d s by blast
qed

theorem one_result_per_tracking_witness:
  "length (reconcileByTrackingPreferPO [exPO, exPOundated] [exShip] [exUPS, exUPSearly, exUPSundated, exBlank]) = 2 \<and>
   set (map trackingUpload (reconcileByTrackingPreferPO [exPO, exPOundated] [exShip] [exUPS, exUPSearly, exUPSundated, exBlank]))
     = {''1Z999AA10123456784'', ''94001000''}"
proof -
  have k: "trackingKey exPO = ''1Z999AA10123456784''" "trackingKey exPOundated = ''1Z999AA10123456784''"
     "trackingKey exShip = ''1Z999AA10123456784''" "trackingKey exUPS = ''1Z999AA10123456784''"
     "trackingKey exUPSearly = ''1Z999AA10123456784''" "trackingKey exUPSundated = ''94001000''"
     "trackingKey exBlank = []"
    by code_simp+
  have s: "{k. k \<noteq> [] \<and> (\<exists>r\<in>set ([exPO, exPOundated] @ [exShip] @ [exUPS, exUPSearly, exUPSundated, exBlank]). trackingKey r = k)}
      = {''1Z999AA10123456784'', ''94001000''}"
    using k by auto
  have c: "card {''1Z999AA10123456784'', ''94001000''} = 2" by simp
  note t = one_result_per_tracking[of "[exPO, exPOundated]" "[exShip]" "[exUPS, exUPSearly, exUPSundated, exBlank]",
      unfolded s c]
  show ?thesis by (rule conjI[OF t[THEN conjunct2, THEN conjunct2] t[THEN conjunct2, THEN conjunct1]])
qed

subsection \<open>The representative row of a group\<close>

text \<open>
  Claim C9. Every result is made from one row of the winning source of its group, the
  representative: a row whose date string (the empty string for a missing date) is the
  least of the group's winning rows in the lexicographic order of the strings, and the
  first such row in upload order; so a row without a date is the representative
  whenever the winning source has one. The number and the party shown are those of the
  representative, and so is the date shown when the representative has one.
\<close>

theorem representative_earliest_date:
  "\<forall>d\<in>set (reconcileByTrackingPreferPO poRows shipRows upsRows).
     \<exists>pick\<in>set (winners (poRows @ shipRows @ upsRows) d).
        (\<forall>r\<in>set (winners (poRows @ shipRows @ upsRows) d). orEmpty (date pick) \<le> orEmpty (date r)) \<and>
        ((\<exists>r\<in>set (winners (poRows @ shipRows @ upsRows) d). \<not> truthy (date r)) \<longrightarrow> \<not> truthy (date pick)) \<and>
        pick = hd (filter (\<lambda>r. orEmpty (date r) = orEmpty (date pick)) (winners (poRows @ shipRows @ upsRows) d)) \<and>
        orderNumber d =
          (case chosenMode d of
             PO \<Rightarrow> orEmpty (js_or (poNumber pick) (Some ''(missing PO#)''))
           | ShipDocs \<Rightarrow> orEmpty (js_or (shipDocNumber pick) (Some ''(missing ShipDoc#)''))
           | UPS \<Rightarrow> []) \<and>
        partyUpload d = (if chosenMode d = PO then js_or (js_or (vendor pick) (customer pick)) None
                         else js_or (js_or (customer pick) (vendor pick)) None) \<and>
        (truthy (date pick) \<longrightarrow> assertedDate d = date pick)"
proof
  fix d assume d: "d \<in> set (reconcileByTrackingPreferPO poRows shipRows upsRows)"
  let ?W = "winners (poRows @ shipRows @ upsRows) d"
  let ?pick = "hd (sortByDate ?W)"
  from d obtain b where b: "emit (trackingUpload d) b = Some d" "?W \<noteq> []"
    "?W = (case chosenMode d of PO \<Rightarrow> po b | ShipDocs \<Rightarrow> ship b | UPS \<Rightarrow> ups b)"
    by (rule reconcile_pick)
  have num: "orderNumber d =
          (case chosenMode d of
             PO \<Rightarrow> orEmpty (js_or (poNumber ?pick) (Some ''(missing PO#)''))
           | ShipDocs \<Rightarrow> orEmpty (js_or (shipDocNumber ?pick) (Some ''(missing ShipDoc#)''))
           | UPS \<Rightarrow> [])"
  proof (cases "chosenMode d")
    case PO
    then show ?thesis using emit_PO(3)[OF b(1) PO] b(3) by simp
  next
    case ShipDocs
    then show ?thesis using emit_ShipDocs(4)[OF b(1) ShipDocs] b(3) by simp
  next
    case UPS
    then show ?thesis using emit_UPS(5)[OF b(1) UPS] by simp
  qed
  have party: "partyUpload d = (if chosenMode d = PO then js_or (js_or (vendor ?pick) (customer ?pick)) None
                         else js_or (js_or (customer ?pick) (vendor ?pick)) None)"
  proof (cases "chosenMode d")
    case PO
    then show ?thesis using emit_PO(4)[OF b(1) PO] b(3) by simp
  next
    case ShipDocs
    then show ?thesis using emit_ShipDocs(5)[OF b(1) ShipDocs] b(3) by simp
  next
    case UPS
    then show ?thesis using emit_UPS(6)[OF b(1) UPS] b(3) by simp
  qed
  have dt: "truthy (date ?pick) \<longrightarrow> assertedDate d = date ?pick"
  proof (cases "chosenMode d")
    case PO
    then show ?thesis using emit_PO(5)[OF b(1) PO] b(3) by (simp add: js_or_truthy)
  next
    case ShipDocs
    then show ?thesis using emit_ShipDocs(6)[OF b(1) ShipDocs] b(3) by (simp add: js_or_truthy)
  next
    case UPS
    then show ?thesis using emit_UPS(7)[OF b(1) UPS] b(3) by (simp add: js_or_truthy)
  qed
  note pp = pick_props[OF b(2), unfolded dateKey_eq]
  have "(\<forall>r\<in>set ?W. orEmpty (date ?pick) \<le> orEmpty (date r)) \<and>
        ((\<exists>r\<in>set ?W. \<not> truthy (date r)) \<longrightarrow> \<not> truthy (date ?pick)) \<and>
        ?pick = hd (filter (\<lambda>r. orEmpty (date r) = orEmpty (date ?pick)) ?W) \<and>
        orderNumber d =
          (case chosenMode d of
             PO \<Rightarrow> orEmpty (js_or (poNumber ?pick) (Some ''(missing PO#)''))
           | ShipDocs \<Rightarrow> orEmpty (js_or (shipDocNumber ?pick) (Some ''(missing ShipDoc#)''))
           | UPS \<Rightarrow> []) \<and>
        partyUpload d = (if chosenMode d = PO then js_or (js_or (vendor ?pick) (customer ?pick)) None
                         else js_or (js_or (customer ?pick) (vendor ?pick)) None) \<and>
        (truthy (date ?pick) \<longrightarrow> assertedDate d = date ?pick)"
    by (rule conjI[OF pp(2) conjI[OF pp(3) conjI[OF pp(4) conjI[OF num conjI[OF party dt]]]]])
  then show "\<exists>pick\<in>set ?W.
        (\<forall>r\<in>set ?W. orEmpty (date pick) \<le> orEmpty (date r)) \<and>
        ((\<exists>r\<in>set ?W. \<not> truthy (date r)) \<longrightarrow> \<not> truthy (date pick)) \<and>
        pick = hd (filter (\<lambda>r. orEmpty (date r) = orEmpty (date pick)) ?W) \<and>
        orderNumber d =
          (case chosenMode d of
             PO \<Rightarrow> orEmpty (js_or (poNumber pick) (Some ''(missing PO#)''))
           | ShipDocs \<Rightarrow> orEmpty (js_or (shipDocNumber pick) (Some ''(missing ShipDoc#)''))
           | UPS \<Rightarrow> []) \<and>
        partyUpload d = (if chosenMode d = PO then js_or (js_or (vendor pick) (customer pick)) None
                         else js_or (js_or (customer pick) (vendor pick)) None) \<and>
        (truthy (date pick) \<longrightarrow> assertedDate d = date pick)"
    by (rule bexI[OF _ pp(1)])
qed

theorem representative_earliest_date_witness:
  "hd (reconcileByTrackingPreferPO [exPO, exPOearly] [exShip] [exUPS])
      \<in> set (reconcileByTrackingPreferPO [exPO, exPOearly] [exShip] [exUPS]) \<and>
   winners ([exPO, exPOearly] @ [exShip] @ [exUPS])
      (hd (reconcileByTrackingPreferPO [exPO, exPOearly] [exShip] [exUPS])) = [exPO, exPOearly] \<and>
   date exPO = Some ''2024-01-05'' \<and> date exPOearly = Some ''2024-01-03'' \<and>
   (\<exists>pick\<in>set [exPO, exPOearly].
        (\<forall>r\<in>set [exPO, exPOearly]. orEmpty (date pick) \<le> orEmpty (date r)) \<and>
        ((\<exists>r\<in>set [exPO, exPOearly]. \<not> truthy (date r)) \<longrightarrow> \<not> truthy (date pick)) \<and>
        pick = hd (filter (\<lambda>r. orEmpty (date r) = orEmpty (date pick)) [exPO, exPOearly]) \<and>
        orderNumber (hd (reconcileByTrackingPreferPO [exPO, exPOearly] [exShip] [exUPS])) =
          (case chosenMode (hd (reconcileByTrackingPreferPO [exPO, exPOearly] [exShip] [exUPS])) of
             PO \<Rightarrow> orEmpty (js_or (poNumber pick) (Some ''(missing PO#)''))
           | ShipDocs \<Rightarrow> orEmpty (js_or (shipDocNumber pick) (Some ''(missing ShipDoc#)''))
           | UPS \<Rightarrow> []) \<and>
        partyUpload (hd (reconcileByTrackingPreferPO [exPO, exPOearly] [exShip] [exUPS])) =
          (if chosenMode (hd (reconcileByTrackingPreferPO [exPO, exPOearly] [exShip] [exUPS])) = PO
           then js_or (js_or (vendor pick) (customer pick)) None
           else js_or (js_or (customer pick) (vendor pick)) None) \<and>
        (truthy (date pick) \<longrightarrow>
           assertedDate (hd (reconcileByTrackingPreferPO [exPO, exPOearly] [exShip] [exUPS])) = date pick)) \<and>
   orderNumber (hd (reconcileByTrackingPreferPO [exPO, exPOearly] [exShip] [exUPS])) = ''PO-101'' \<and>
   partyUpload (hd (reconcileByTrackingPreferPO [exPO, exPOearly] [exShip] [exUPS])) = Some ''Zenith'' \<and>
   assertedDate (hd (reconcileByTrackingPreferPO [exPO, exPOearly] [exShip] [exUPS])) = Some ''2024-01-03'' \<and>
   orderNumber (hd (reconcileByTrackingPreferPO [exPO, exPOundated, exPOearly] [] [])) = ''(missing PO#)'' \<and>
   partyUpload (hd (reconcileByTrackingPreferPO [exPO, exPOundated, exPOearly] [] [])) = Some ''Bolt''"
proof -
  have m: "hd (reconcileByTrackingPreferPO [exPO, exPOearly] [exShip] [exUPS])
      \<in> set (reconcileByTrackingPreferPO [exPO, exPOearly] [exShip] [exUPS])"
    by code_simp
  have w: "winners ([exPO, exPOearly] @ [exShip] @ [exUPS])
      (hd (reconcileByTrackingPreferPO [exPO, exPOearly] [exShip] [exUPS])) = [exPO, exPOearly]"
    by code_simp
  have d1: "date exPO = Some ''2024-01-05''" by (simp add: exPO_def)
  have d2: "date exPOearly = Some ''2024-01-03''" by (simp add: exPOearly_def)
  have c1: "orderNumber (hd (reconcileByTrackingPreferPO [exPO, exPOearly] [exShip] [exUPS])) = ''PO-101''"
    by code_simp
  have c2: "partyUpload (hd (reconcileByTrackingPreferPO [exPO, exPOearly] [exShip] [exUPS])) = Some ''Zenith''"
    by code_simp
  have c3: "assertedDate (hd (reconcileByTrackingPreferPO [exPO, exPOearly] [exShip] [exUPS])) = Some ''2024-01-03''"
    by code_simp
  have c4: "orderNumber (hd (reconcileByTrackingPreferPO [exPO, exPOundated, exPOearly] [] [])) = ''(missing PO#)''"
    by code_simp
  have c5: "partyUpload (hd (reconcileByTrackingPreferPO [exPO, exPOundated, exPOearly] [] [])) = Some ''Bolt''"
    by code_simp
  note t = representative_earliest_date[of "[exPO, exPOearly]" "[exShip]" "[exUPS]", THEN bspec, OF m,
      unfolded w]
  show ?thesis
    by (rule conjI[OF m conjI[OF w conjI[OF d1 conjI[OF d2 conjI[OF t conjI[OF c1 conjI[OF c2
          conjI[OF c3 conjI[OF c4 c5]]]]]]]]])
qed

subsection \<open>Placeholders for a missing document number\<close>

text \<open>
  Claim C10. A \<open>MATCH_PO\<close> result shows the PO number of the representative row, or the
  text \<open>(missing PO#)\<close> when that number is absent or empty; a \<open>MATCH_SHIPDOCS\<close> result
  shows the ship-doc number or \<open>(missing ShipDoc#)\<close> likewise; an \<open>UNMATCHED_UPS\<close>
  result shows the empty string.
\<close>

theorem missing_number_placeholder:
  "\<forall>d\<in>set (reconcileByTrackingPreferPO poRows shipRows upsRows).
     (let pick = hd (sortByDate (winners (poRows @ shipRows @ upsRows) d)) in
        (verdict d = ''MATCH_PO'' \<longrightarrow>
           orderNumber d = (case poNumber pick of None \<Rightarrow> ''(missing PO#)''
                            | Some n \<Rightarrow> if n = [] then ''(missing PO#)'' else n)) \<and>
        (verdict d = ''MATCH_SHIPDOCS'' \<longrightarrow>
           orderNumber d = (case shipDocNumber pick of None \<Rightarrow> ''(missing ShipDoc#)''
                            | Some n \<Rightarrow> if n = [] then ''(missing ShipDoc#)'' else n)) \<and>
        (verdict d = ''UNMATCHED_UPS'' \<longrightarrow> orderNumber d = []))"
proof
  fix d assume d: "d \<in> set (reconcileByTrackingPreferPO poRows shipRows upsRows)"
  let ?W = "winners (poRows @ shipRows @ upsRows) d"
  let ?pick = "hd (sortByDate ?W)"
  from d obtain b where b: "emit (trackingUpload d) b = Some d" "?W \<noteq> []"
    "?W = (case chosenMode d of PO \<Rightarrow> po b | ShipDocs \<Rightarrow> ship b | UPS \<Rightarrow> ups b)"
    by (rule reconcile_pick)
  note vm = emit_verdict_mode[OF b(1)]
  have 1: "verdict d = ''MATCH_PO'' \<longrightarrow>
           orderNumber d = (case poNumber ?pick of None \<Rightarrow> ''(missing PO#)''
                            | Some n \<Rightarrow> if n = [] then ''(missing PO#)'' else n)"
  proof
    assume "verdict d = ''MATCH_PO''"
    then have m: "chosenMode d = PO" unfolding vm(1) .
    show "orderNumber d = (case poNumber ?pick of None \<Rightarrow> ''(missing PO#)''
                            | Some n \<Rightarrow> if n = [] then ''(missing PO#)'' else n)"
      using emit_PO(3)[OF b(1) m] b(3) m unfolding orEmpty_js_or by simp
  qed
  have 2: "verdict d = ''MATCH_SHIPDOCS'' \<longrightarrow>
           orderNumber d = (case shipDocNumber ?pick of None \<Rightarrow> ''(missing ShipDoc#)''
                            | Some n \<Rightarrow> if n = [] then ''(missing ShipDoc#)'' else n)"
  proof
    assume "verdict d = ''MATCH_SHIPDOCS''"
    then have m: "chosenMode d = ShipDocs" unfolding vm(2) .
    show "orderNumber d = (case shipDocNumber ?pick of None \<Rightarrow> ''(missing ShipDoc#)''
                            | Some n \<Rightarrow> if n = [] then ''(missing ShipDoc#)'' else n)"
      using emit_ShipDocs(4)[OF b(1) m] b(3) m unfolding orEmpty_js_or by simp
  qed
  have 3: "verdict d = ''UNMATCHED_UPS'' \<longrightarrow> orderNumber d = []"
  proof
    assume "verdict d = ''UNMATCHED_UPS''"
    then have m: "chosenMode d = UPS" unfolding vm(3) .
    show "orderNumber d = []" by (rule emit_UPS(5)[OF b(1) m])
  qed
  show "let pick = ?pick in
        (verdict d = ''MATCH_PO'' \<longrightarrow>
           orderNumber d = (case poNumber pick of None \<Rightarrow> ''(missing PO#)''
                            | Some n \<Rightarrow> if n = [] then ''(missing PO#)'' else n)) \<and>
        (verdict d = ''MATCH_SHIPDOCS'' \<longrightarrow>
           orderNumber d = (case shipDocNumber pick of None \<Rightarrow> ''(missing ShipDoc#)''
                            | Some n \<Rightarrow> if n = [] then ''(missing ShipDoc#)'' else n)) \<and>
        (verdict d = ''UNMATCHED_UPS'' \<longrightarrow> orderNumber d = [])"
    unfolding Let_def using 1 2 3 by blast
qed

theorem missing_number_placeholder_witness:
  "(hd (reconcileByTrackingPreferPO [exPOundated] [exShip] [exUPS])
      \<in> set (reconcileByTrackingPreferPO [exPOundated] [exShip] [exUPS]) \<and>
    verdict (hd (reconcileByTrackingPreferPO [exPOundated] [exShip] [exUPS])) = ''MATCH_PO'' \<and>
    orderNumber (hd (reconcileByTrackingPreferPO [exPOundated] [exShip] [exUPS])) = ''(missing PO#)'') \<and>
   (hd (reconcileByTrackingPreferPO [] [exShip] [exUPS])
      \<in> set (reconcileByTrackingPreferPO [] [exShip] [exUPS]) \<and>
    verdict (hd (reconcileByTrackingPreferPO [] [exShip] [exUPS])) = ''MATCH_SHIPDOCS'' \<and>
    orderNumber (hd (reconcileByTrackingPreferPO [] [exShip] [exUPS])) = ''(missing ShipDoc#)'') \<and>
   (hd (reconcileByTrackingPreferPO [] [] [exUPS])
      \<in> set (reconcileByTrackingPreferPO [] [] [exUPS]) \<and>
    verdict (hd (reconcileByTrackingPreferPO [] [] [exUPS])) = ''UNMATCHED_UPS'' \<and>
    orderNumber (hd (reconcileByTrackingPreferPO [] [] [exUPS])) = [])"
proof -
  have m1: "hd (reconcileByTrackingPreferPO [exPOundated] [exShip] [exUPS])
      \<in> set (reconcileByTrackingPreferPO [exPOundated] [exShip] [exUPS])"
    by code_simp
  have v1: "verdict (hd (reconcileByTrackingPreferPO [exPOundated] [exShip] [exUPS])) = ''MATCH_PO''"
    by code_simp
  have p1: "poNumber (hd (sortByDate (winners ([exPOundated] @ [exShip] @ [exUPS])
               (hd (reconcileByTrackingPreferPO [exPOundated] [exShip] [exUPS]))))) = Some []"
    by code_simp
  have m2: "hd (reconcileByTrackingPreferPO [] [exShip] [exUPS])
      \<in> set (reconcileByTrackingPreferPO [] [exShip] [exUPS])"
    by code_simp
  have v2: "verdict (hd (reconcileByTrackingPreferPO [] [exShip] [exUPS])) = ''MATCH_SHIPDOCS''"
    by code_simp
  have p2: "shipDocNumber (hd (sortByDate (winners ([] @ [exShip] @ [exUPS])
               (hd (reconcileByTrackingPreferPO [] [exShip] [exUPS]))))) = None"
    by code_simp
  have m3: "hd (reconcileByTrackingPreferPO [] [] [exUPS])
      \<in> set (reconcileByTrackingPreferPO [] [] [exUPS])"
    by code_simp
  have v3: "verdict (hd (reconcileByTrackingPreferPO [] [] [exUPS])) = ''UNMATCHED_UPS''"
    by code_simp
  note t1 = missing_number_placeholder[of "[exPOundated]" "[exShip]" "[exUPS]", THEN bspec, OF m1,
      unfolded Let_def, THEN conjunct1, THEN mp, OF v1, unfolded p1]
  note t2 = missing_number_placeholder[of "[]" "[exShip]" "[exUPS]", THEN bspec, OF m2,
      unfolded Let_def, THEN conjunct2, THEN conjunct1, THEN mp, OF v2, unfolded p2]
  note t3 = missing_number_placeholder[of "[]" "[]" "[exUPS]", THEN bspec, OF m3,
      unfolded Let_def, THEN conjunct2, THEN conjunct2, THEN mp, OF v3]
  have o1: "orderNumber (hd (reconcileByTrackingPreferPO [exPOundated] [exShip] [exUPS])) = ''(missing PO#)''"
    using t1 by simp
  have o2: "orderNumber (hd (reconcileByTrackingPreferPO [] [exShip] [exUPS])) = ''(missing ShipDoc#)''"
    using t2 by simp
  show ?thesis
    by (rule conjI[OF conjI[OF m1 conjI[OF v1 o1]] conjI[OF conjI[OF m2 conjI[OF v2 o2]] conjI[OF m3 conjI[OF v3 t3]]]])
qed

subsection \<open>The date shown for a group\<close>

text \<open>
  Claim C6, as the code has it. The date shown for a group is the date of the
  representative row when that row has one. Otherwise, in a \<open>MATCH_PO\<close> group it is the
  date of the first row in upload order that has a date among the UPS rows of the group,
  and failing that among its ShipDocs rows; in a \<open>MATCH_SHIPDOCS\<close> group it is the date
  of the first UPS row of the group that has one; and when there is no such row, or the
  group is \<open>UNMATCHED_UPS\<close>, it is \<open>null\<close>. Dates never bear on the verdict: replacing
  the date of every input row in any way leaves the list of tracking numbers and
  verdicts unchanged.
\<close>

theorem displayed_date:
  "(\<forall>d\<in>set (reconcileByTrackingPreferPO poRows shipRows upsRows).
     (let rows = poRows @ shipRows @ upsRows;
          pick = hd (sortByDate (winners rows d));
          upsDated = dated (groupOf rows (trackingUpload d) UPS);
          shipDated = dated (groupOf rows (trackingUpload d) ShipDocs)
      in assertedDate d =
           (if truthy (date pick) then date pick
            else if chosenMode d = PO then
              (if upsDated \<noteq> [] then date (hd upsDated)
               else if shipDated \<noteq> [] then date (hd shipDated) else None)
            else if chosenMode d = ShipDocs then
              (if upsDated \<noteq> [] then date (hd upsDated) else None)
            else None))) \<and>
   map (\<lambda>d. (trackingUpload d, verdict d))
       (reconcileByTrackingPreferPO (map (redate f) poRows) (map (redate f) shipRows) (map (redate f) upsRows))
     = map (\<lambda>d. (trackingUpload d, verdict d)) (reconcileByTrackingPreferPO poRows shipRows upsRows)"
proof (rule conjI)
  show "\<forall>d\<in>set (reconcileByTrackingPreferPO poRows shipRows upsRows).
     (let rows = poRows @ shipRows @ upsRows;
          pick = hd (sortByDate (winners rows d));
          upsDated = dated (groupOf rows (trackingUpload d) UPS);
          shipDated = dated (groupOf rows (trackingUpload d) ShipDocs)
      in assertedDate d =
           (if truthy (date pick) then date pick
            else if chosenMode d = PO then
              (if upsDated \<noteq> [] then date (hd upsDated)
               else if shipDated \<noteq> [] then date (hd shipDated) else None)
            else if chosenMode d = ShipDocs then
              (if upsDated \<noteq> [] then date (hd upsDated) else None)
            else None))"
  proof
    fix d assume d: "d \<in> set (reconcileByTrackingPreferPO poRows shipRows upsRows)"
    show "let rows = poRows @ shipRows @ upsRows;
          pick = hd (sortByDate (winners rows d));
          upsDated = dated (groupOf rows (trackingUpload d) UPS);
          shipDated = dated (groupOf rows (trackingUpload d) ShipDocs)
      in assertedDate d =
           (if truthy (date pick) then date pick
            else if chosenMode d = PO then
              (if upsDated \<noteq> [] then date (hd upsDated)
               else if shipDated \<noteq> [] then date (hd shipDated) else None)
            else if chosenMode d = ShipDocs then
              (if upsDated \<noteq> [] then date (hd upsDated) else None)
            else None)"
      using assertedDate_eq[OF d] unfolding shownDate_def Let_def .
  qed
next
  have k: "map fst (buckets (map (redate f) poRows) (map (redate f) shipRows) (map (redate f) upsRows))
      = map fst (buckets poRows shipRows upsRows)"
    unfolding buckets_eq using keys_redate[of f "poRows @ shipRows @ upsRows"] by simp
  have r: "map (redate f) poRows @ map (redate f) shipRows @ map (redate f) upsRows
      = map (redate f) (poRows @ shipRows @ upsRows)" by simp
  show "map (\<lambda>d. (trackingUpload d, verdict d))
       (reconcileByTrackingPreferPO (map (redate f) poRows) (map (redate f) shipRows) (map (redate f) upsRows))
     = map (\<lambda>d. (trackingUpload d, verdict d)) (reconcileByTrackingPreferPO poRows shipRows upsRows)"
    unfolding reconcile_verdicts k r verdictOf_redate ..
qed

theorem displayed_date_witness:
  "hd (reconcileByTrackingPreferPO [exPOundated] [exShip] [exUPS, exUPSearly])
     \<in> set (reconcileByTrackingPreferPO [exPOundated] [exShip] [exUPS, exUPSearly]) \<and>
   (let rows = [exPOundated] @ [exShip] @ [exUPS, exUPSearly];
        pick = hd (sortByDate (winners rows (hd (reconcileByTrackingPreferPO [exPOundated] [exShip] [exUPS, exUPSearly]))));
        upsDated = dated (groupOf rows
           (trackingUpload (hd (reconcileByTrackingPreferPO [exPOundated] [exShip] [exUPS, exUPSearly]))) UPS);
        shipDated = dated (groupOf rows
           (trackingUpload (hd (reconcileByTrackingPreferPO [exPOundated] [exShip] [exUPS, exUPSearly]))) ShipDocs)
    in assertedDate (hd (reconcileByTrackingPreferPO [exPOundated] [exShip] [exUPS, exUPSearly])) =
         (if truthy (date pick) then date pick
          else if chosenMode (hd (reconcileByTrackingPreferPO [exPOundated] [exShip] [exUPS, exUPSearly])) = PO then
            (if upsDated \<noteq> [] then date (hd upsDated)
             else if shipDated \<noteq> [] then date (hd shipDated) else None)
          else if chosenMode (hd (reconcileByTrackingPreferPO [exPOundated] [exShip] [exUPS, exUPSearly])) = ShipDocs then
            (if upsDated \<noteq> [] then date (hd upsDated) else None)
          else None)) \<and>
   map (\<lambda>d. (trackingUpload d, verdict d))
       (reconcileByTrackingPreferPO (map (redate (\<lambda>r. None)) [exPOundated]) (map (redate (\<lambda>r. None)) [exShip])
          (map (redate (\<lambda>r. None)) [exUPS, exUPSearly]))
     = map (\<lambda>d. (trackingUpload d, verdict d)) (reconcileByTrackingPreferPO [exPOundated] [exShip] [exUPS, exUPSearly])"
proof -
  have mem: "hd (reconcileByTrackingPreferPO [exPOundated] [exShip] [exUPS, exUPSearly])
     \<in> set (reconcileByTrackingPreferPO [exPOundated] [exShip] [exUPS, exUPSearly])"
    by code_simp
  note t = displayed_date[of "[exPOundated]" "[exShip]" "[exUPS, exUPSearly]" "\<lambda>r. None"]
  show ?thesis
    by (rule conjI[OF mem conjI[OF t[THEN conjunct1, THEN bspec, OF mem] t[THEN conjunct2]]])
qed

text \<open>
  The borrowed date is the first one met, not the earliest: with an undated PO row and
  the UPS rows dated 2024-01-07 and 2024-01-03 in this order, the result shows
  2024-01-07, while the earliest date available from the UPS rows is 2024-01-03.
\<close>

theorem displayed_date_counterexample:
  "hd (reconcileByTrackingPreferPO [exPOundated] [] [exUPS, exUPSearly])
     \<in> set (reconcileByTrackingPreferPO [exPOundated] [] [exUPS, exUPSearly]) \<and>
   verdict (hd (reconcileByTrackingPreferPO [exPOundated] [] [exUPS, exUPSearly])) = ''MATCH_PO'' \<and>
   date (hd (sortByDate (winners ([exPOundated] @ [] @ [exUPS, exUPSearly])
              (hd (reconcileByTrackingPreferPO [exPOundated] [] [exUPS, exUPSearly]))))) = None \<and>
   groupOf ([exPOundated] @ [] @ [exUPS, exUPSearly]) ''1Z999AA10123456784'' UPS = [exUPS, exUPSearly] \<and>
   spec_earliestDate [exUPS, exUPSearly] = Some ''2024-01-03'' \<and>
   assertedDate (hd (reconcileByTrackingPreferPO [exPOundated] [] [exUPS, exUPSearly])) = Some ''2024-01-07'' \<and>
   assertedDate (hd (reconcileByTrackingPreferPO [exPOundated] [] [exUPS, exUPSearly]))
     \<noteq> spec_earliestDate [exUPS, exUPSearly]"
  by code_simp

subsection \<open>The verdict scorer\<close>

text \<open>
  Claim C4. The scorer ranks \<open>OK\<close> = 3 above \<open>MISMATCH\<close> = 2 above \<open>NOT_FOUND\<close> = 1
  above \<open>ERROR\<close> = 0. When both interpretations of a row return, the preferred one (the
  source mode of the row, PO when it has none) is evaluated first and the other one
  second; the other one is chosen when its verdict ranks strictly higher, and the
  preferred one is chosen otherwise, a tie included.
\<close>

theorem verdict_scorer:
  assumes "prefer = (case r_sourceMode r of None \<Rightarrow> ModePO | Some m \<Rightarrow> m)"
      and "other = (if prefer = ModePO then ModeSO else ModePO)"
      and "reconcileOne decide ot prefer r = (Inr resPref, c1)"
      and "reconcileOne decide ot other r = (Inr resOther, c2)"
      and "score (res_verdict resPref) = Some p"
      and "score (res_verdict resOther) = Some q"
  shows "(score ''OK'' = Some 3 \<and> score ''MISMATCH'' = Some 2 \<and> score ''NOT_FOUND'' = Some 1 \<and>
          score ''ERROR'' = Some 0) \<and>
         snd (reconcileRow decide ot i r) = c1 @ c2 \<and>
         (p < q \<longrightarrow> t_chosenMode (fst (reconcileRow decide ot i r)) = modeName other \<and>
                     t_verdict (fst (reconcileRow decide ot i r)) = res_verdict resOther) \<and>
         (q \<le> p \<longrightarrow> t_chosenMode (fst (reconcileRow decide ot i r)) = modeName prefer \<and>
                     t_verdict (fst (reconcileRow decide ot i r)) = res_verdict resPref)"
proof -
  have a: "reconcileOne decide ot (case r_sourceMode r of None \<Rightarrow> ModePO | Some m \<Rightarrow> m) r = (Inr resPref, c1)"
    using assms(1,3) by simp
  have b: "reconcileOne decide ot
             (if (case r_sourceMode r of None \<Rightarrow> ModePO | Some m \<Rightarrow> m) = ModePO then ModeSO else ModePO) r
           = (Inr resOther, c2)"
    using assms(1,2,4) by simp
  have mp: "res_mode resPref = prefer" by (rule reconcileOne_mode[OF assms(3)])
  have mo: "res_mode resOther = other" by (rule reconcileOne_mode[OF assms(4)])
  note rr = reconcileRow_both[OF a b, of i]
  have g: "js_gt (reading (res_verdict resOther)) (reading (res_verdict resPref)) \<longleftrightarrow> p < q"
    by (rule js_gt_Some[OF assms(6) assms(5)])
  have hi: "p < q \<longrightarrow> t_chosenMode (fst (reconcileRow decide ot i r)) = modeName other \<and>
                     t_verdict (fst (reconcileRow decide ot i r)) = res_verdict resOther"
    unfolding rr(1,2) g using mo by simp
  have lo: "q \<le> p \<longrightarrow> t_chosenMode (fst (reconcileRow decide ot i r)) = modeName prefer \<and>
                     t_verdict (fst (reconcileRow decide ot i r)) = res_verdict resPref"
    unfolding rr(1,2) g using mp by simp
  have tab: "score ''OK'' = Some 3 \<and> score ''MISMATCH'' = Some 2 \<and> score ''NOT_FOUND'' = Some 1 \<and>
          score ''ERROR'' = Some 0"
    using score_table by simp
  show ?thesis by (rule conjI[OF tab conjI[OF rr(3) conjI[OF hi lo]]])
qed

theorem verdict_scorer_witness:
  "(reconcileOne exDecide otSales ModePO exRowOrder =
      (Inr \<lparr>res_mode = ModePO, res_verdict = ''NOT_FOUND'', res_reason = [], res_dayDelta = None\<rparr>,
       [GetOrder ModePO ''PO-200'']) \<and>
    reconcileOne exDecide otSales ModeSO exRowOrder =
      (Inr \<lparr>res_mode = ModeSO, res_verdict = ''OK'', res_reason = [], res_dayDelta = None\<rparr>,
       [GetOrder ModeSO ''PO-200'', GetActivity ModeSO ''PO-200'']) \<and>
    (1::nat) < 3 \<and>
    t_chosenMode (fst (reconcileRow exDecide otSales 0 exRowOrder)) = ''SO'' \<and>
    t_verdict (fst (reconcileRow exDecide otSales 0 exRowOrder)) = ''OK'') \<and>
   (reconcileOne exDecide otEmpty ModePO exRowOrder =
      (Inr \<lparr>res_mode = ModePO, res_verdict = ''NOT_FOUND'', res_reason = [], res_dayDelta = None\<rparr>,
       [GetOrder ModePO ''PO-200'']) \<and>
    reconcileOne exDecide otEmpty ModeSO exRowOrder =
      (Inr \<lparr>res_mode = ModeSO, res_verdict = ''NOT_FOUND'', res_reason = [], res_dayDelta = None\<rparr>,
       [GetOrder ModeSO ''PO-200'']) \<and>
    (1::nat) \<le> 1 \<and>
    t_chosenMode (fst (reconcileRow exDecide otEmpty 0 exRowOrder)) = ''PO'' \<and>
    t_verdict (fst (reconcileRow exDecide otEmpty 0 exRowOrder)) = ''NOT_FOUND'')"
proof -
  have pm: "ModePO = (case r_sourceMode exRowOrder of None \<Rightarrow> ModePO | Some m \<Rightarrow> m)"
    by (simp add: exRowOrder_def)
  have om: "ModeSO = (if ModePO = ModePO then ModeSO else ModePO)"
    by simp
  have a1: "reconcileOne exDecide otSales ModePO exRowOrder =
      (Inr \<lparr>res_mode = ModePO, res_verdict = ''NOT_FOUND'', res_reason = [], res_dayDelta = None\<rparr>,
       [GetOrder ModePO ''PO-200''])"
    by code_simp
  have b1: "reconcileOne exDecide otSales ModeSO exRowOrder =
      (Inr \<lparr>res_mode = ModeSO, res_verdict = ''OK'', res_reason = [], res_dayDelta = None\<rparr>,
       [GetOrder ModeSO ''PO-200'', GetActivity ModeSO ''PO-200''])"
    by code_simp
  have a2: "reconcileOne exDecide otEmpty ModePO exRowOrder =
      (Inr \<lparr>res_mode = ModePO, res_verdict = ''NOT_FOUND'', res_reason = [], res_dayDelta = None\<rparr>,
       [GetOrder ModePO ''PO-200''])"
    by code_simp
  have b2: "reconcileOne exDecide otEmpty ModeSO exRowOrder =
      (Inr \<lparr>res_mode = ModeSO, res_verdict = ''NOT_FOUND'', res_reason = [], res_dayDelta = None\<rparr>,
       [GetOrder ModeSO ''PO-200''])"
    by code_simp
  have sN: "score (res_verdict \<lparr>res_mode = ModePO, res_verdict = ''NOT_FOUND'', res_reason = [], res_dayDelta = None\<rparr>) = Some 1"
    by code_simp
  have sN': "score (res_verdict \<lparr>res_mode = ModeSO, res_verdict = ''NOT_FOUND'', res_reason = [], res_dayDelta = None\<rparr>) = Some 1"
    by code_simp
  have sO: "score (res_verdict \<lparr>res_mode = ModeSO, res_verdict = ''OK'', res_reason = [], res_dayDelta = None\<rparr>) = Some 3"
    by code_simp
  have lt: "(1::nat) < 3" by simp
  have le: "(1::nat) \<le> 1" by simp
  note t1 = verdict_scorer[OF pm om a1 b1 sN sO, of 0, THEN conjunct2, THEN conjunct2, THEN conjunct1, THEN mp, OF lt]
  note t2 = verdict_scorer[OF pm om a2 b2 sN sN', of 0, THEN conjunct2, THEN conjunct2, THEN conjunct2, THEN mp, OF le]
  have c1: "t_chosenMode (fst (reconcileRow exDecide otSales 0 exRowOrder)) = ''SO''"
    using t1[THEN conjunct1] by (simp add: modeName_def)
  have v1: "t_verdict (fst (reconcileRow exDecide otSales 0 exRowOrder)) = ''OK''"
    using t1[THEN conjunct2] by simp
  have c2: "t_chosenMode (fst (reconcileRow exDecide otEmpty 0 exRowOrder)) = ''PO''"
    using t2[THEN conjunct1] by (simp add: modeName_def)
  have v2: "t_verdict (fst (reconcileRow exDecide otEmpty 0 exRowOrder)) = ''NOT_FOUND''"
    using t2[THEN conjunct2] by simp
  show ?thesis
    by (rule conjI[OF conjI[OF a1 conjI[OF b1 conjI[OF lt conjI[OF c1 v1]]]]
                      conjI[OF a2 conjI[OF b2 conjI[OF le conjI[OF c2 v2]]]]])
qed

subsection \<open>A lookup that fails\<close>

text \<open>
  Claim C1, as the code has it, for a lookup whose promise is rejected (no connection, no
  authentication, an HTTP error status). For a row with an order number, a rejected
  lookup of the order is caught and replaced by \<open>null\<close>, and the interpretation is
  decided exactly as for an order the truth source answers \<open>null\<close> for: one request,
  \<open>orderExists\<close> false, no packages, and the same result whatever the decision function
  is; under the decision contract of the design text that result is the verdict
  \<open>NOT_FOUND\<close>. A rejected lookup of the activity, for an order that exists, is decided
  as an activity answered \<open>null\<close>. The result does not tell a rejected lookup from an
  absence.
\<close>

theorem failed_lookup_as_not_found:
  assumes "truthy (r_orderNumber r)"
      and "n = orEmpty (r_orderNumber r)"
  shows "(getOrder ot mode n = Rejected \<and> getOrder ot' mode n = Resolved None \<longrightarrow>
            reconcileOne decide ot mode r = reconcileOne decide ot' mode r \<and>
            snd (reconcileOne decide ot mode r) = [GetOrder mode n] \<and>
            \<not> orderExists (fst (gather ot mode r)) \<and> packages (fst (gather ot mode r)) = [] \<and>
            fst (reconcileOne (decide_spec agree delta why) ot mode r) =
              Inr \<lparr>res_mode = mode, res_verdict = ''NOT_FOUND'',
                   res_reason = why (fst (gather ot mode r)), res_dayDelta = None\<rparr>) \<and>
         (getOrder ot mode n = Resolved (Some ord) \<and> getOrder ot' mode n = Resolved (Some ord) \<and>
          getActivity ot mode n = Rejected \<and> getActivity ot' mode n = Resolved None \<longrightarrow>
            reconcileOne decide ot mode r = reconcileOne decide ot' mode r)"
proof (rule conjI)
  show "getOrder ot mode n = Rejected \<and> getOrder ot' mode n = Resolved None \<longrightarrow>
            reconcileOne decide ot mode r = reconcileOne decide ot' mode r \<and>
            snd (reconcileOne decide ot mode r) = [GetOrder mode n] \<and>
            \<not> orderExists (fst (gather ot mode r)) \<and> packages (fst (gather ot mode r)) = [] \<and>
            fst (reconcileOne (decide_spec agree delta why) ot mode r) =
              Inr \<lparr>res_mode = mode, res_verdict = ''NOT_FOUND'',
                   res_reason = why (fst (gather ot mode r)), res_dayDelta = None\<rparr>"
  proof
    assume h: "getOrder ot mode n = Rejected \<and> getOrder ot' mode n = Resolved None"
    have c: "catchNull (getOrder ot mode (orEmpty (r_orderNumber r))) = None"
      using h assms(2) by (simp add: catchNull_def)
    have c': "catchNull (getOrder ot' mode (orEmpty (r_orderNumber r))) = None"
      using h assms(2) by (simp add: catchNull_def)
    note g = gather_order_rejected[OF assms(1) c]
    note g' = gather_order_rejected[OF assms(1) c']
    have e: "reconcileOne decide ot mode r = reconcileOne decide ot' mode r"
      by (rule reconcileOne_cong) (simp only: g g')
    have s: "snd (reconcileOne decide ot mode r) = [GetOrder mode n]"
      unfolding reconcileOne_calls g assms(2) by simp
    have x: "\<not> orderExists (fst (gather ot mode r))" "packages (fst (gather ot mode r)) = []"
      unfolding g by simp_all
    have v: "fst (reconcileOne (decide_spec agree delta why) ot mode r) =
              Inr \<lparr>res_mode = mode, res_verdict = ''NOT_FOUND'',
                   res_reason = why (fst (gather ot mode r)), res_dayDelta = None\<rparr>"
      using x(1) by (simp add: reconcileOne_def decide_spec_def orEmpty_def)
    show "reconcileOne decide ot mode r = reconcileOne decide ot' mode r \<and>
            snd (reconcileOne decide ot mode r) = [GetOrder mode n] \<and>
            \<not> orderExists (fst (gather ot mode r)) \<and> packages (fst (gather ot mode r)) = [] \<and>
            fst (reconcileOne (decide_spec agree delta why) ot mode r) =
              Inr \<lparr>res_mode = mode, res_verdict = ''NOT_FOUND'',
                   res_reason = why (fst (gather ot mode r)), res_dayDelta = None\<rparr>"
      by (rule conjI[OF e conjI[OF s conjI[OF x(1) conjI[OF x(2) v]]]])
  qed
next
  show "getOrder ot mode n = Resolved (Some ord) \<and> getOrder ot' mode n = Resolved (Some ord) \<and>
          getActivity ot mode n = Rejected \<and> getActivity ot' mode n = Resolved None \<longrightarrow>
            reconcileOne decide ot mode r = reconcileOne decide ot' mode r"
  proof
    assume h: "getOrder ot mode n = Resolved (Some ord) \<and> getOrder ot' mode n = Resolved (Some ord) \<and>
          getActivity ot mode n = Rejected \<and> getActivity ot' mode n = Resolved None"
    have o: "getOrder ot mode (orEmpty (r_orderNumber r)) = Resolved (Some ord)"
        "getOrder ot' mode (orEmpty (r_orderNumber r)) = Resolved (Some ord)"
      using h assms(2) by simp_all
    have c: "catchNull (getActivity ot mode (orEmpty (r_orderNumber r))) = None"
        "catchNull (getActivity ot' mode (orEmpty (r_orderNumber r))) = None"
      using h assms(2) by (simp_all add: catchNull_def)
    note g = gather_activity_none[OF assms(1) o(1) c(1)]
    note g' = gather_activity_none[OF assms(1) o(2) c(2)]
    show "reconcileOne decide ot mode r = reconcileOne decide ot' mode r"
      by (rule reconcileOne_cong) (simp only: g g')
  qed
qed

theorem failed_lookup_as_not_found_witness:
  "(truthy (r_orderNumber exRowOrder) \<and> ''PO-200'' = orEmpty (r_orderNumber exRowOrder)) \<and>
   (getOrder otDown ModePO ''PO-200'' = Rejected \<and> getOrder otEmpty ModePO ''PO-200'' = Resolved None) \<and>
   (reconcileOne exDecide otDown ModePO exRowOrder = reconcileOne exDecide otEmpty ModePO exRowOrder \<and>
    snd (reconcileOne exDecide otDown ModePO exRowOrder) = [GetOrder ModePO ''PO-200''] \<and>
    \<not> orderExists (fst (gather otDown ModePO exRowOrder)) \<and>
    packages (fst (gather otDown ModePO exRowOrder)) = [] \<and>
    fst (reconcileOne (decide_spec (\<lambda>inp. True) (\<lambda>inp. None) (\<lambda>inp. [])) otDown ModePO exRowOrder) =
      Inr \<lparr>res_mode = ModePO, res_verdict = ''NOT_FOUND'',
           res_reason = (\<lambda>inp. []) (fst (gather otDown ModePO exRowOrder)), res_dayDelta = None\<rparr>) \<and>
   (getOrder otActivityDown ModePO ''PO-200'' = Resolved (Some exOrder) \<and>
    getOrder otActivityNull ModePO ''PO-200'' = Resolved (Some exOrder) \<and>
    getActivity otActivityDown ModePO ''PO-200'' = Rejected \<and>
    getActivity otActivityNull ModePO ''PO-200'' = Resolved None) \<and>
   reconcileOne exDecide otActivityDown ModePO exRowOrder = reconcileOne exDecide otActivityNull ModePO exRowOrder"
proof -
  have h: "truthy (r_orderNumber exRowOrder)" "''PO-200'' = orEmpty (r_orderNumber exRowOrder)"
    by (simp_all add: exRowOrder_def truthy_def orEmpty_def)
  have g: "getOrder otDown ModePO ''PO-200'' = Rejected \<and> getOrder otEmpty ModePO ''PO-200'' = Resolved None"
    by (simp add: otDown_def otEmpty_def)
  have k: "getOrder otActivityDown ModePO ''PO-200'' = Resolved (Some exOrder) \<and>
    getOrder otActivityNull ModePO ''PO-200'' = Resolved (Some exOrder) \<and>
    getActivity otActivityDown ModePO ''PO-200'' = Rejected \<and>
    getActivity otActivityNull ModePO ''PO-200'' = Resolved None"
    by (simp add: otActivityDown_def otActivityNull_def)
  note t1 = failed_lookup_as_not_found[OF h, where ot = otDown and mode = ModePO and ot' = otEmpty
      and decide = exDecide and agree = "\<lambda>inp. True" and delta = "\<lambda>inp. None" and why = "\<lambda>inp. []",
      THEN conjunct1, THEN mp, OF g]
  note t2 = failed_lookup_as_not_found[OF h, where ot = otActivityDown and mode = ModePO and ot' = otActivityNull
      and decide = exDecide and ord = exOrder,
      THEN conjunct2, THEN mp, OF k]
  show ?thesis
    by (rule conjI[OF conjI[OF h] conjI[OF g conjI[OF t1 conjI[OF k t2]]]])
qed

text \<open>
  With a truth source that rejects every request, the row with order number PO-200 gets
  the verdict \<open>NOT_FOUND\<close> under either interpretation, not \<open>ERROR\<close>, and the whole
  result is the one of a truth source that answers \<open>null\<close>.
\<close>

theorem failed_lookup_counterexample:
  "getOrder otDown ModePO ''PO-200'' = Rejected \<and>
   getOrder otEmpty ModePO ''PO-200'' = Resolved None \<and>
   fst (reconcileOne exDecide otDown ModePO exRowOrder) =
     Inr \<lparr>res_mode = ModePO, res_verdict = ''NOT_FOUND'', res_reason = [], res_dayDelta = None\<rparr> \<and>
   res_verdict \<lparr>res_mode = ModePO, res_verdict = ''NOT_FOUND'', res_reason = [], res_dayDelta = None\<rparr> \<noteq> ''ERROR'' \<and>
   reconcileOne exDecide otDown ModePO exRowOrder = reconcileOne exDecide otEmpty ModePO exRowOrder \<and>
   fst (reconcileRow exDecide otDown 0 exRowOrder) = fst (reconcileRow exDecide otEmpty 0 exRowOrder) \<and>
   t_verdict (fst (reconcileRow exDecide otDown 0 exRowOrder)) = ''NOT_FOUND'' \<and>
   t_poVerdict (fst (reconcileRow exDecide otDown 0 exRowOrder)) = Some ''NOT_FOUND'' \<and>
   t_soVerdict (fst (reconcileRow exDecide otDown 0 exRowOrder)) = Some ''NOT_FOUND''"
  by code_simp

subsection \<open>A row with a tracking number only\<close>




subsection \<open>Dates in the responses\<close>

text \<open>
  Claim C8, as the code has it. In the details of the truth-source verification the
  asserted date is always a string: the empty string for a row without a date, also
  when the reconciliation of the row threw, and otherwise the first ten characters of
  the ISO text of the date. For a date of the years 0 to 9999 these are its
  \<open>YYYY-MM-DD\<close> part; for a date of another year the ISO text begins with a sign and a
  year of six digits, and its first ten characters are not of the shape \<open>YYYY-MM-DD\<close>.
  In the results of the cross-file merge the asserted date is the date string of a
  dated row of the group, or \<open>null\<close>; it is \<open>null\<close> exactly when the representative row
  has no date and no row to borrow from has one. The date string of a row is written by
  the parser of the merge from the year, the month and the day read off the date cell,
  the year as the number it is and the month and the day with two digits, and it is
  \<open>null\<close> for a cell that does not read as a date; it has the shape \<open>YYYY-MM-DD\<close>
  exactly when the year is between 1000 and 9999.
\<close>

theorem wire_dates:
  "t_assertedDate (fst (reconcileRow decide ot i r)) =
     (case r_assertedDate r of None \<Rightarrow> [] | Some t \<Rightarrow> take 10 (toISOString t)) \<and>
   (\<forall>t. r_assertedDate r = Some t \<and> validDate t \<longrightarrow>
      (0 \<le> utcFullYear t \<and> utcFullYear t \<le> 9999 \<longrightarrow>
         isYMD (t_assertedDate (fst (reconcileRow decide ot i r))) \<and>
         t_assertedDate (fst (reconcileRow decide ot i r)) =
           padStart 4 (CHR ''0'') (showNat (nat (utcFullYear t))) @ ''-'' @
           padStart 2 (CHR ''0'') (showNat (utcMonth t + 1)) @ ''-'' @
           padStart 2 (CHR ''0'') (showNat (utcDate t))) \<and>
      (utcFullYear t < 0 \<or> 9999 < utcFullYear t \<longrightarrow>
         \<not> isYMD (t_assertedDate (fst (reconcileRow decide ot i r))))) \<and>
   (\<forall>d\<in>set (reconcileByTrackingPreferPO poRows shipRows upsRows).
      (assertedDate d = None \<or>
       (\<exists>r\<in>set (poRows @ shipRows @ upsRows).
          trackingKey r = trackingUpload d \<and> truthy (date r) \<and> assertedDate d = date r)) \<and>
      (assertedDate d = None \<longleftrightarrow>
         \<not> truthy (date (hd (sortByDate (winners (poRows @ shipRows @ upsRows) d)))) \<and>
         (chosenMode d = UPS \<or> dated (groupOf (poRows @ shipRows @ upsRows) (trackingUpload d) UPS) = []) \<and>
         (chosenMode d \<noteq> PO \<or> dated (groupOf (poRows @ shipRows @ upsRows) (trackingUpload d) ShipDocs) = []))) \<and>
   (\<forall>k<length sheet.
      date (parseUploadToRows newDate smode sheet ! k) =
        (case pickFirst (lcKeyed (sheet ! k)) dateAliases of
           None \<Rightarrow> None
         | Some (CellText s) \<Rightarrow>
             (if s = [] then None else map_option (\<lambda>(y, m, dd). ymdText y (m + 1) dd) (newDate s))
         | Some (CellNumber s code) \<Rightarrow> map_option (\<lambda>(y, m, dd). ymdText y m dd) code
         | Some (CellDate s l) \<Rightarrow> map_option (\<lambda>(y, m, dd). ymdText y (m + 1) dd) l
         | Some (CellOther s) \<Rightarrow> None)) \<and>
   (\<forall>y m dd. m < 100 \<and> dd < 100 \<longrightarrow> (isYMD (ymdText y m dd) \<longleftrightarrow> 1000 \<le> y \<and> y \<le> 9999))"
proof -
  have w: "t_assertedDate (fst (reconcileRow decide ot i r)) =
     (case r_assertedDate r of None \<Rightarrow> [] | Some t \<Rightarrow> take 10 (toISOString t))"
    unfolding reconcileRow_assertedDate wireDate_def ..
  have f: "\<forall>t. r_assertedDate r = Some t \<and> validDate t \<longrightarrow>
      (0 \<le> utcFullYear t \<and> utcFullYear t \<le> 9999 \<longrightarrow>
         isYMD (t_assertedDate (fst (reconcileRow decide ot i r))) \<and>
         t_assertedDate (fst (reconcileRow decide ot i r)) =
           padStart 4 (CHR ''0'') (showNat (nat (utcFullYear t))) @ ''-'' @
           padStart 2 (CHR ''0'') (showNat (utcMonth t + 1)) @ ''-'' @
           padStart 2 (CHR ''0'') (showNat (utcDate t))) \<and>
      (utcFullYear t < 0 \<or> 9999 < utcFullYear t \<longrightarrow>
         \<not> isYMD (t_assertedDate (fst (reconcileRow decide ot i r))))"
  proof (intro allI impI)
    fix t assume t: "r_assertedDate r = Some t \<and> validDate t"
    have e: "t_assertedDate (fst (reconcileRow decide ot i r)) = take 10 (toISOString t)"
      unfolding w using t by simp
    have v: "validDate t" using t by simp
    have a: "0 \<le> utcFullYear t \<and> utcFullYear t \<le> 9999 \<longrightarrow>
         isYMD (t_assertedDate (fst (reconcileRow decide ot i r))) \<and>
         t_assertedDate (fst (reconcileRow decide ot i r)) =
           padStart 4 (CHR ''0'') (showNat (nat (utcFullYear t))) @ ''-'' @
           padStart 2 (CHR ''0'') (showNat (utcMonth t + 1)) @ ''-'' @
           padStart 2 (CHR ''0'') (showNat (utcDate t))"
      unfolding e using wireDate_in_range[OF v] by blast
    have b: "utcFullYear t < 0 \<or> 9999 < utcFullYear t \<longrightarrow>
         \<not> isYMD (t_assertedDate (fst (reconcileRow decide ot i r)))"
      unfolding e using wireDate_out_of_range by blast
    show "(0 \<le> utcFullYear t \<and> utcFullYear t \<le> 9999 \<longrightarrow>
         isYMD (t_assertedDate (fst (reconcileRow decide ot i r))) \<and>
         t_assertedDate (fst (reconcileRow decide ot i r)) =
           padStart 4 (CHR ''0'') (showNat (nat (utcFullYear t))) @ ''-'' @
           padStart 2 (CHR ''0'') (showNat (utcMonth t + 1)) @ ''-'' @
           padStart 2 (CHR ''0'') (showNat (utcDate t))) \<and>
      (utcFullYear t < 0 \<or> 9999 < utcFullYear t \<longrightarrow>
         \<not> isYMD (t_assertedDate (fst (reconcileRow decide ot i r))))"
      by (rule conjI[OF a b])
  qed
  have m: "\<forall>d\<in>set (reconcileByTrackingPreferPO poRows shipRows upsRows).
      (assertedDate d = None \<or>
       (\<exists>r\<in>set (poRows @ shipRows @ upsRows).
          trackingKey r = trackingUpload d \<and> truthy (date r) \<and> assertedDate d = date r)) \<and>
      (assertedDate d = None \<longleftrightarrow>
         \<not> truthy (date (hd (sortByDate (winners (poRows @ shipRows @ upsRows) d)))) \<and>
         (chosenMode d = UPS \<or> dated (groupOf (poRows @ shipRows @ upsRows) (trackingUpload d) UPS) = []) \<and>
         (chosenMode d \<noteq> PO \<or> dated (groupOf (poRows @ shipRows @ upsRows) (trackingUpload d) ShipDocs) = []))"
  proof
    fix d assume d: "d \<in> set (reconcileByTrackingPreferPO poRows shipRows upsRows)"
    note e = assertedDate_eq[OF d]
    show "(assertedDate d = None \<or>
       (\<exists>r\<in>set (poRows @ shipRows @ upsRows).
          trackingKey r = trackingUpload d \<and> truthy (date r) \<and> assertedDate d = date r)) \<and>
      (assertedDate d = None \<longleftrightarrow>
         \<not> truthy (date (hd (sortByDate (winners (poRows @ shipRows @ upsRows) d)))) \<and>
         (chosenMode d = UPS \<or> dated (groupOf (poRows @ shipRows @ upsRows) (trackingUpload d) UPS) = []) \<and>
         (chosenMode d \<noteq> PO \<or> dated (groupOf (poRows @ shipRows @ upsRows) (trackingUpload d) ShipDocs) = []))"
      unfolding e by (rule conjI[OF shownDate_origin[OF d] shownDate_None_iff])
  qed
  have p: "\<forall>k<length sheet.
      date (parseUploadToRows newDate smode sheet ! k) =
        (case pickFirst (lcKeyed (sheet ! k)) dateAliases of
           None \<Rightarrow> None
         | Some (CellText s) \<Rightarrow>
             (if s = [] then None else map_option (\<lambda>(y, m, dd). ymdText y (m + 1) dd) (newDate s))
         | Some (CellNumber s code) \<Rightarrow> map_option (\<lambda>(y, m, dd). ymdText y m dd) code
         | Some (CellDate s l) \<Rightarrow> map_option (\<lambda>(y, m, dd). ymdText y (m + 1) dd) l
         | Some (CellOther s) \<Rightarrow> None)"
  proof (intro allI impI)
    fix k assume k: "k < length sheet"
    show "date (parseUploadToRows newDate smode sheet ! k) =
        (case pickFirst (lcKeyed (sheet ! k)) dateAliases of
           None \<Rightarrow> None
         | Some (CellText s) \<Rightarrow>
             (if s = [] then None else map_option (\<lambda>(y, m, dd). ymdText y (m + 1) dd) (newDate s))
         | Some (CellNumber s code) \<Rightarrow> map_option (\<lambda>(y, m, dd). ymdText y m dd) code
         | Some (CellDate s l) \<Rightarrow> map_option (\<lambda>(y, m, dd). ymdText y (m + 1) dd) l
         | Some (CellOther s) \<Rightarrow> None)"
      unfolding parseUploadToRows_def parseUploadFrom_nth[OF k] parseUploadRow_date
      by (rule rowDate_exact)
  qed
  have y: "\<forall>y m dd. m < 100 \<and> dd < 100 \<longrightarrow> (isYMD (ymdText y m dd) \<longleftrightarrow> 1000 \<le> y \<and> y \<le> 9999)"
    using ymdText_isYMD by blast
  show ?thesis by (rule conjI[OF w conjI[OF f conjI[OF m conjI[OF p y]]]])
qed

theorem wire_dates_witness:
  "t_assertedDate (fst (reconcileRow exDecide otSales 0 exRowOrder)) = ''2024-02-01'' \<and>
   (r_assertedDate exRowOrder = Some (JsDate 2024 1 1 0 0 0 0) \<and> validDate (JsDate 2024 1 1 0 0 0 0)) \<and>
   isYMD (t_assertedDate (fst (reconcileRow exDecide otSales 0 exRowOrder))) \<and>
   t_assertedDate (fst (reconcileRow exDecide otSales 0 exRowTracking)) = [] \<and>
   hd (reconcileByTrackingPreferPO [exPOundated] [exShip] [exUPS, exUPSearly])
     \<in> set (reconcileByTrackingPreferPO [exPOundated] [exShip] [exUPS, exUPSearly]) \<and>
   assertedDate (hd (reconcileByTrackingPreferPO [exPOundated] [exShip] [exUPS, exUPSearly])) = date exUPS \<and>
   (\<exists>r\<in>set ([exPOundated] @ [exShip] @ [exUPS, exUPSearly]).
      trackingKey r = trackingUpload (hd (reconcileByTrackingPreferPO [exPOundated] [exShip] [exUPS, exUPSearly])) \<and>
      truthy (date r) \<and>
      assertedDate (hd (reconcileByTrackingPreferPO [exPOundated] [exShip] [exUPS, exUPSearly])) = date r) \<and>
   pickFirst (lcKeyed ([sheetBlank, sheetSerial] ! 1)) dateAliases = Some (CellNumber ''45296'' (Some (2024, 1, 5))) \<and>
   date (parseUploadToRows exNewDate PO [sheetBlank, sheetSerial] ! 1) = Some ''2024-01-05'' \<and>
   isYMD (ymdText 2024 1 5)"
proof -
  have mem: "hd (reconcileByTrackingPreferPO [exPOundated] [exShip] [exUPS, exUPSearly])
     \<in> set (reconcileByTrackingPreferPO [exPOundated] [exShip] [exUPS, exUPSearly])"
    by code_simp
  have d1: "r_assertedDate exRowOrder = Some (JsDate 2024 1 1 0 0 0 0)"
    by (simp add: exRowOrder_def)
  have r1: "(case r_assertedDate exRowOrder of None \<Rightarrow> [] | Some t \<Rightarrow> take 10 (toISOString t)) = ''2024-02-01''"
    unfolding d1 by (simp only: option.case iso_examples(1))
  have r2: "(case r_assertedDate exRowTracking of None \<Rightarrow> [] | Some t \<Rightarrow> take 10 (toISOString t)) = []"
    by (simp add: exRowTracking_def)
  have v: "r_assertedDate exRowOrder = Some (JsDate 2024 1 1 0 0 0 0) \<and> validDate (JsDate 2024 1 1 0 0 0 0)"
    by (simp add: exRowOrder_def validDate_def)
  have yr: "0 \<le> utcFullYear (JsDate 2024 1 1 0 0 0 0) \<and> utcFullYear (JsDate 2024 1 1 0 0 0 0) \<le> 9999"
    by simp
  have a: "assertedDate (hd (reconcileByTrackingPreferPO [exPOundated] [exShip] [exUPS, exUPSearly])) = date exUPS"
    by code_simp
  have n: "assertedDate (hd (reconcileByTrackingPreferPO [exPOundated] [exShip] [exUPS, exUPSearly])) \<noteq> None"
    by code_simp
  have k: "1 < length [sheetBlank, sheetSerial]" by simp
  have c: "pickFirst (lcKeyed ([sheetBlank, sheetSerial] ! 1)) dateAliases =
             Some (CellNumber ''45296'' (Some (2024, 1, 5)))"
    by code_simp
  have t: "ymdText 2024 1 5 = ''2024-01-05''" by (simp add: text_eval)
  have b: "(1::nat) < 100 \<and> (5::nat) < 100" by simp
  have g: "(1000::int) \<le> 2024 \<and> (2024::int) \<le> 9999" by simp
  note w1 = wire_dates[of exDecide otSales 0 exRowOrder "[]" "[]" "[]" "[]", THEN conjunct1, unfolded r1]
  note w1b = wire_dates[of exDecide otSales 0 exRowOrder "[]" "[]" "[]" "[]", THEN conjunct2, THEN conjunct1,
      THEN spec, THEN mp, OF v, THEN conjunct1, THEN mp, OF yr, THEN conjunct1]
  note w2 = wire_dates[of exDecide otSales 0 exRowTracking "[exPOundated]" "[exShip]" "[exUPS, exUPSearly]"
      "[sheetBlank, sheetSerial]" exNewDate PO]
  note w3 = w2[THEN conjunct1, unfolded r2]
  note w4 = w2[THEN conjunct2, THEN conjunct2, THEN conjunct1, THEN bspec, OF mem, THEN conjunct1]
  have w4': "\<exists>r\<in>set ([exPOundated] @ [exShip] @ [exUPS, exUPSearly]).
      trackingKey r = trackingUpload (hd (reconcileByTrackingPreferPO [exPOundated] [exShip] [exUPS, exUPSearly])) \<and>
      truthy (date r) \<and>
      assertedDate (hd (reconcileByTrackingPreferPO [exPOundated] [exShip] [exUPS, exUPSearly])) = date r"
    by (rule disjE[OF w4]) (rule notE[OF n], assumption+)
  note w5 = w2[THEN conjunct2, THEN conjunct2, THEN conjunct2, THEN conjunct1, THEN spec, THEN mp, OF k,
      unfolded c]
  have w5': "date (parseUploadToRows exNewDate PO [sheetBlank, sheetSerial] ! 1) = Some ''2024-01-05''"
    using w5 t by simp
  note w6 = w2[THEN conjunct2, THEN conjunct2, THEN conjunct2, THEN conjunct2, THEN spec, THEN spec, THEN spec,
      THEN mp, OF b, THEN iffD2, OF g]
  show ?thesis
    by (rule conjI[OF w1 conjI[OF v conjI[OF w1b conjI[OF w3 conjI[OF mem conjI[OF a conjI[OF w4'
          conjI[OF c conjI[OF w5' w6]]]]]]]]])
qed

text \<open>
  A UPS row without a date, alone in its group, gives a result whose asserted date is
  \<open>null\<close>, not the empty string. A row whose date cell holds the text of 15 June of the
  year 99 gets the date string \<open>99-06-15\<close>, and so does its result. In the
  truth-source verification a row dated 1 January 12345 gets the asserted date
  \<open>+012345-01\<close>.
\<close>

theorem wire_dates_counterexample:
  "(reconcileByTrackingPreferPO [] [] [exUPSundated] =
     [\<lparr>d_row = ''trk:94001000'', d_sourceMode = UPS_file, chosenMode = UPS, orderNumber = [],
       partyUpload = None, trackingUpload = ''94001000'', assertedDate = None,
       verdict = ''UNMATCHED_UPS'', reason = ''Tracking not found on PO or ShipDocs'',
       dayDelta = None, poVerdict = None, shipVerdict = None\<rparr>] \<and>
    assertedDate (hd (reconcileByTrackingPreferPO [] [] [exUPSundated])) = None \<and>
    assertedDate (hd (reconcileByTrackingPreferPO [] [] [exUPSundated])) \<noteq> Some []) \<and>
   (exNewDate ''0099-06-15T12:00:00.000Z'' = Some (99, 5, 15) \<and>
    map date (parseUploadToRows exNewDate UPS [sheetYear99]) = [Some ''99-06-15''] \<and>
    map assertedDate (reconcileByTrackingPreferPO [] [] (parseUploadToRows exNewDate UPS [sheetYear99])) =
      [Some ''99-06-15''] \<and>
    \<not> isYMD ''99-06-15'') \<and>
   (r_assertedDate exRowFarDate = Some (JsDate 12345 0 1 0 0 0 0) \<and>
    validDate (JsDate 12345 0 1 0 0 0 0) \<and>
    toISOString (JsDate 12345 0 1 0 0 0 0) = ''+012345-01-01T00:00:00.000Z'' \<and>
    t_assertedDate (fst (reconcileRow exDecide otEmpty 0 exRowFarDate)) = ''+012345-01'' \<and>
    \<not> isYMD ''+012345-01'')"
proof -
  have a: "reconcileByTrackingPreferPO [] [] [exUPSundated] =
     [\<lparr>d_row = ''trk:94001000'', d_sourceMode = UPS_file, chosenMode = UPS, orderNumber = [],
       partyUpload = None, trackingUpload = ''94001000'', assertedDate = None,
       verdict = ''UNMATCHED_UPS'', reason = ''Tracking not found on PO or ShipDocs'',
       dayDelta = None, poVerdict = None, shipVerdict = None\<rparr>] \<and>
    assertedDate (hd (reconcileByTrackingPreferPO [] [] [exUPSundated])) = None \<and>
    assertedDate (hd (reconcileByTrackingPreferPO [] [] [exUPSundated])) \<noteq> Some []"
    by code_simp
  have b: "exNewDate ''0099-06-15T12:00:00.000Z'' = Some (99, 5, 15) \<and>
    map date (parseUploadToRows exNewDate UPS [sheetYear99]) = [Some ''99-06-15''] \<and>
    map assertedDate (reconcileByTrackingPreferPO [] [] (parseUploadToRows exNewDate UPS [sheetYear99])) =
      [Some ''99-06-15''] \<and>
    \<not> isYMD ''99-06-15''"
    by code_simp
  have c1: "r_assertedDate exRowFarDate = Some (JsDate 12345 0 1 0 0 0 0)"
    by (simp add: exRowFarDate_def)
  have c2: "validDate (JsDate 12345 0 1 0 0 0 0)"
    by (simp add: validDate_def)
  have c3: "toISOString (JsDate 12345 0 1 0 0 0 0) = ''+012345-01-01T00:00:00.000Z''"
    by (rule iso_examples(2))
  have c4: "t_assertedDate (fst (reconcileRow exDecide otEmpty 0 exRowFarDate)) = ''+012345-01''"
    unfolding reconcileRow_assertedDate wireDate_def c1 by (simp only: option.case iso_examples(3))
  have c5: "\<not> isYMD ''+012345-01''"
    by code_simp
  show ?thesis
    by (rule conjI[OF a conjI[OF b conjI[OF c1 conjI[OF c2 conjI[OF c3 conjI[OF c4 c5]]]]]])
qed

subsection \<open>Rows without an identifier\<close>




end
